theory Spec2Isabelle
  imports Main "HOL-Library.Word" "HOL-Library.Sublist"
begin

section \<open>Go runtime values used by the proxy\<close>

text \<open>
  Go strings are byte sequences and \<open>len\<close> counts bytes, so a Go string is a
  \<^typ>\<open>string\<close> here.  Go's \<open>int\<close> is 64 bits wide; every integer of the cookie code is
  a string length, an index below a string length plus at most 4069, or 4069 minus string
  lengths, so none of them can leave the 64-bit range and they are modelled as \<^typ>\<open>int\<close>.
  A run-time panic is a value of the type \<open>panic\<close>.
\<close>

datatype panic = DivideByZero | SliceBoundsOutOfRange | NilDereference | CorruptedContext

text \<open>Integer division \<open>a / b\<close>: truncates towards zero, panics when \<open>b = 0\<close>.\<close>

definition go_div :: "int \<Rightarrow> int \<Rightarrow> panic + int" where
  "go_div a b = (if b = 0 then Inl DivideByZero else Inr (sgn a * sgn b * (\<bar>a\<bar> div \<bar>b\<bar>)))"

text \<open>The slice expression \<open>s[lo:hi]\<close> on a string: panics unless \<open>0 \<le> lo \<le> hi \<le> len(s)\<close>.\<close>

definition go_slice :: "string \<Rightarrow> int \<Rightarrow> int \<Rightarrow> panic + string" where
  "go_slice s lo hi =
     (if 0 \<le> lo \<and> lo \<le> hi \<and> hi \<le> int (length s)
      then Inr (take (nat hi - nat lo) (drop (nat lo) s))
      else Inl SliceBoundsOutOfRange)"

text \<open>\<open>strconv.Itoa\<close>: the decimal representation, with a leading minus sign for negatives.\<close>

fun digits :: "nat \<Rightarrow> string" where
  "digits n = (if n < 10 then [''0123456789'' ! n]
               else digits (n div 10) @ [''0123456789'' ! (n mod 10)])"

declare digits.simps [simp del]

definition Itoa :: "int \<Rightarrow> string" where
  "Itoa i = (if i < 0 then CHR ''-'' # digits (nat (- i)) else digits (nat i))"

text \<open>\<open>strings.Split(s, sep)\<close> for a separator \<open>sep\<close> of one byte; the result is never empty.\<close>

fun strings_Split :: "string \<Rightarrow> char \<Rightarrow> string list" where
  "strings_Split [] sep = [[]]"
| "strings_Split (c # cs) sep =
     (if c = sep then [] # strings_Split cs sep
      else (case strings_Split cs sep of
              [] \<Rightarrow> [[c]]
            | w # ws \<Rightarrow> (c # w) # ws))"

text \<open>\<open>strings.Contains(s, sub)\<close>.\<close>

fun strings_Contains :: "string \<Rightarrow> string \<Rightarrow> bool" where
  "strings_Contains [] sub = (sub = [])"
| "strings_Contains (c # cs) sub = (prefix sub (c # cs) \<or> strings_Contains cs sub)"

section \<open>Configuration, requests and response cookies\<close>

text \<open>
  The fields of \<open>Config\<close> that the cookie code and the middleware read.  A \<open>time.Time\<close> is a number of
  nanoseconds since the epoch and a \<open>time.Duration\<close> a number of nanoseconds.
\<close>

record Config =
  CookieDomain :: string
  HTTPOnlyCookie :: bool
  SecureCookie :: bool
  EnableSessionCookies :: bool
  CookieAccessName :: string
  CookieRefreshName :: string
  EnableCSRF :: bool
  EnableRefreshTokens :: bool
  SkipTokenVerification :: bool
  RequiredScopes :: "string list"

text \<open>
  An \<open>http.Cookie\<close> as \<open>dropCookie\<close> builds it; \<open>Expires = None\<close> is the zero time, for which
  no \<open>Expires\<close> attribute is written.  The field \<open>Domain\<close> is \<open>Domain_attr\<close> here, since
  \<open>Domain\<close> is a constant of HOL.
\<close>

record Cookie =
  Domain_attr :: string
  HttpOnly :: bool
  Name :: string
  Path :: string
  Secure :: bool
  Value :: string
  Expires :: "int option"

text \<open>
  The part of an \<open>http.Request\<close> that is read: the \<open>Host\<close> header, the cookies of the
  \<open>Cookie\<close> header as (name, value) pairs in order, and \<open>URL.RequestURI()\<close>.
\<close>

record Request =
  Host :: string
  Cookies :: "(string \<times> string) list"
  RequestURI :: string

text \<open>\<open>req.Cookie(name)\<close>: the first cookie of that name, or \<open>http.ErrNoCookie\<close> (\<open>None\<close>).\<close>

definition req_Cookie :: "Request \<Rightarrow> string \<Rightarrow> (string \<times> string) option" where
  "req_Cookie req name = find (\<lambda>c. fst c = name) (Cookies req)"

definition Hour :: int where
  "Hour = 3600 * 1000000000"

section \<open>Cookie envelope\<close>

text \<open>
  \<open>dropCookie\<close>.  The response writer is the list of cookies handed to \<open>http.SetCookie\<close>, in
  order; \<open>now\<close> is the value of \<open>time.Now()\<close>.
\<close>

definition dropCookie ::
  "Config \<Rightarrow> int \<Rightarrow> Cookie list \<Rightarrow> string \<Rightarrow> string \<Rightarrow> string \<Rightarrow> int \<Rightarrow> Cookie list" where
  "dropCookie cfg now w host name value duration =
     (let domain = hd (strings_Split host CHR '':'');
          domain = (if CookieDomain cfg \<noteq> [] then CookieDomain cfg else domain);
          cookie = \<lparr> Domain_attr = domain, HttpOnly = HTTPOnlyCookie cfg, Name = name,
                     Path = ''/'', Secure = SecureCookie cfg, Value = value, Expires = None \<rparr>;
          cookie = (if \<not> EnableSessionCookies cfg \<and> duration \<noteq> 0
                    then cookie \<lparr> Expires := Some (now + duration) \<rparr> else cookie)
      in w @ [cookie])"

definition getMaxCookieChunkLength :: "Config \<Rightarrow> Request \<Rightarrow> string \<Rightarrow> int" where
  "getMaxCookieChunkLength cfg req cookieName =
     (let maxCookieChunkLength = 4069 - int (length cookieName);
          maxCookieChunkLength =
            (if CookieDomain cfg \<noteq> [] then maxCookieChunkLength - int (length (CookieDomain cfg))
             else maxCookieChunkLength - int (length (hd (strings_Split (Host req) CHR '':''))));
          maxCookieChunkLength =
            (if HTTPOnlyCookie cfg then maxCookieChunkLength - int (length ''HttpOnly; '')
             else maxCookieChunkLength);
          maxCookieChunkLength =
            (if \<not> EnableSessionCookies cfg
             then maxCookieChunkLength - int (length ''Expires=Mon, 02 Jan 2006 03:04:05 MST; '')
             else maxCookieChunkLength);
          maxCookieChunkLength =
            (if SecureCookie cfg then maxCookieChunkLength - int (length ''Secure'')
             else maxCookieChunkLength)
      in maxCookieChunkLength)"

text \<open>
  The loop of \<open>dropCookieWithChunks\<close>, \<open>for i := m; i < len(value); i += m\<close>, started at
  index \<open>i\<close>.  The arguments of the call in its body are evaluated in order: first the
  chunk name with \<open>i / m\<close>, then the slice \<open>value[i:end]\<close>.
\<close>

function dropCookieWithChunks_loop ::
  "Config \<Rightarrow> int \<Rightarrow> string \<Rightarrow> string \<Rightarrow> string \<Rightarrow> int \<Rightarrow> int \<Rightarrow> int \<Rightarrow> Cookie list
     \<Rightarrow> panic + Cookie list" where
  "dropCookieWithChunks_loop cfg now host name value duration m i w =
     (if i < int (length value) then
        (let end = i + m;
             end = (if end > int (length value) then int (length value) else end)
         in case go_div i m of
              Inl p \<Rightarrow> Inl p
            | Inr q \<Rightarrow>
                (case go_slice value i end of
                   Inl p \<Rightarrow> Inl p
                 | Inr chunk \<Rightarrow>
                     dropCookieWithChunks_loop cfg now host name value duration m (i + m)
                       (dropCookie cfg now w host (name @ ''-'' @ Itoa q) chunk duration)))
      else Inr w)"
  by pat_completeness auto
termination
proof (relation "measure (\<lambda>(cfg, now, host, name, value, duration, m, i, w). nat (int (length value) - i))")
  show "wf (measure (\<lambda>(cfg, now, host, name, value, duration, m, i, w). nat (int (length value) - i)))"
    by simp
next
  fix cfg :: Config and now :: int and host name "value" :: string
    and duration m i :: int and w :: "Cookie list" and x xa x2 x2a
  assume "i < int (length value)" and "x = i + m"
    and "xa = (if int (length value) < x then int (length value) else x)"
    and "go_div i m = Inr x2" and "go_slice value i xa = Inr x2a"
  then have "0 < m"
    by (auto simp: go_slice_def go_div_def split: if_splits)
  with \<open>i < int (length value)\<close>
  show "((cfg, now, host, name, value, duration, m, i + m,
           dropCookie cfg now w host (name @ ''-'' @ Itoa x2) x2a duration),
          cfg, now, host, name, value, duration, m, i, w)
        \<in> measure (\<lambda>(cfg, now, host, name, value, duration, m, i, w). nat (int (length value) - i))"
    by simp
qed

declare dropCookieWithChunks_loop.simps [simp del]

definition dropCookieWithChunks ::
  "Config \<Rightarrow> int \<Rightarrow> Request \<Rightarrow> Cookie list \<Rightarrow> string \<Rightarrow> string \<Rightarrow> int \<Rightarrow> panic + Cookie list" where
  "dropCookieWithChunks cfg now req w name value duration =
     (let maxCookieChunkLength = getMaxCookieChunkLength cfg req name
      in if int (length value) \<le> maxCookieChunkLength
         then Inr (dropCookie cfg now w (Host req) name value duration)
         else (case go_slice value 0 maxCookieChunkLength of
                 Inl p \<Rightarrow> Inl p
               | Inr chunk \<Rightarrow>
                   dropCookieWithChunks_loop cfg now (Host req) name value duration
                     maxCookieChunkLength maxCookieChunkLength
                     (dropCookie cfg now w (Host req) name chunk duration)))"


text \<open>
  Modelled from the spec: the constants \<open>requestURICookie\<close> and \<open>requestStateCookie\<close> are
  declared outside the files at hand; the spec names the two envelopes \<open>request_uri\<close> and
  \<open>request_state\<close>.
\<close>

definition requestURICookie :: string where
  "requestURICookie = ''request_uri''"

definition requestStateCookie :: string where
  "requestStateCookie = ''request_state''"

text \<open>\<open>base64.StdEncoding.EncodeToString\<close>: the standard alphabet, padded with \<open>=\<close>.\<close>

definition encodeStd :: string where
  "encodeStd = ''ABCDEFGHIJKLMNOPQRSTUVWXYZabcdefghijklmnopqrstuvwxyz0123456789+/''"

fun EncodeToString :: "string \<Rightarrow> string" where
  "EncodeToString [] = []"
| "EncodeToString [a] =
     (let n = (of_char a :: nat) * 65536
      in [encodeStd ! (n div 262144), encodeStd ! (n div 4096 mod 64), CHR ''='', CHR ''=''])"
| "EncodeToString [a, b] =
     (let n = (of_char a :: nat) * 65536 + of_char b * 256
      in [encodeStd ! (n div 262144), encodeStd ! (n div 4096 mod 64),
          encodeStd ! (n div 64 mod 64), CHR ''=''])"
| "EncodeToString (a # b # c # rest) =
     (let n = (of_char a :: nat) * 65536 + of_char b * 256 + of_char c
      in [encodeStd ! (n div 262144), encodeStd ! (n div 4096 mod 64),
          encodeStd ! (n div 64 mod 64), encodeStd ! (n mod 64)] @ EncodeToString rest)"

text \<open>
  \<open>writeStateParameterCookie\<close>; \<open>uuid\<close> is the string that \<open>uuid.NewV4().String()\<close>
  returns in this call.
\<close>

definition writeStateParameterCookie ::
  "Config \<Rightarrow> int \<Rightarrow> Request \<Rightarrow> Cookie list \<Rightarrow> string \<Rightarrow> Cookie list \<times> string" where
  "writeStateParameterCookie cfg now req w uuid =
     (let requestURI = EncodeToString (RequestURI req);
          w = dropCookie cfg now w (Host req) requestURICookie requestURI 0;
          w = dropCookie cfg now w (Host req) requestStateCookie uuid 0
      in (w, uuid))"

text \<open>
  The loop that \<open>clearRefreshTokenCookie\<close> and \<open>clearAccessTokenCookie\<close> both run,
  \<open>for i := 1; i < bound; i++\<close>, for the cookie name \<open>name\<close>: it stops at the first chunk
  name that the request does not carry.  The two functions differ in the name and in the
  bound only.
\<close>

function clearCookieChunks_loop ::
  "Config \<Rightarrow> int \<Rightarrow> Request \<Rightarrow> string \<Rightarrow> int \<Rightarrow> int \<Rightarrow> Cookie list \<Rightarrow> Cookie list" where
  "clearCookieChunks_loop cfg now req name bound i w =
     (if i < bound then
        (case req_Cookie req (name @ ''-'' @ Itoa i) of
           Some c \<Rightarrow>
             clearCookieChunks_loop cfg now req name bound (i + 1)
               (dropCookie cfg now w (Host req) (name @ ''-'' @ Itoa i) [] (- 10 * Hour))
         | None \<Rightarrow> w)
      else w)"
  by pat_completeness auto
termination
  by (relation "measure (\<lambda>(cfg, now, req, name, bound, i, w). nat (bound - i))") auto

declare clearCookieChunks_loop.simps [simp del]

definition clearRefreshTokenCookie :: "Config \<Rightarrow> int \<Rightarrow> Request \<Rightarrow> Cookie list \<Rightarrow> Cookie list" where
  "clearRefreshTokenCookie cfg now req w =
     clearCookieChunks_loop cfg now req (CookieRefreshName cfg) 600 1
       (dropCookie cfg now w (Host req) (CookieRefreshName cfg) [] (- 10 * Hour))"

definition clearAccessTokenCookie :: "Config \<Rightarrow> int \<Rightarrow> Request \<Rightarrow> Cookie list \<Rightarrow> Cookie list" where
  "clearAccessTokenCookie cfg now req w =
     clearCookieChunks_loop cfg now req (CookieAccessName cfg) (int (length (Cookies req))) 1
       (dropCookie cfg now w (Host req) (CookieAccessName cfg) [] (- 10 * Hour))"

definition clearAllCookies :: "Config \<Rightarrow> int \<Rightarrow> Request \<Rightarrow> Cookie list \<Rightarrow> Cookie list" where
  "clearAllCookies cfg now req w = clearRefreshTokenCookie cfg now req (clearAccessTokenCookie cfg now req w)"


section \<open>Tokens, identities and errors\<close>

text \<open>
  A claim value is the JSON value that the token carries.  \<open>jose.Claims\<close> is a map from
  claim names to such values.
\<close>

datatype json = JString string | JArray "json list" | JNumber int | JBool bool | JNull

type_synonym claims = "string \<rightharpoonup> json"

text \<open>
  The errors of the proxy.  The sentinel errors are compared by identity; \<open>Errorf\<close> is an
  error made by \<open>fmt.Errorf\<close> and \<open>External\<close> an error made by a library, each with its
  message.
\<close>

datatype error =
    ErrAccessTokenExpired
  | ErrRefreshTokenExpired
  | ErrEncode
  | ErrEncryption
  | ErrNoSessionStateFound
  | Errorf string
  | External string

text \<open>
  A \<open>jose.JWT\<close>: its encoding and the result of \<open>token.Claims()\<close>, which is the claim map
  or the message of the library's error.
\<close>

record JWT =
  Encode :: string
  Claims :: "string + claims"

text \<open>
  The \<open>userContext\<close>: the fields that the middleware reads (\<open>name\<close>, \<open>claims\<close> and
  \<open>token\<close> carry the prefix \<open>user_\<close> here).  \<open>isBearer\<close> returns the field
  \<open>bearerToken\<close>.
\<close>

record userContext =
  email :: string
  user_name :: string
  roles :: "string list"
  groups :: "string list"
  user_claims :: claims
  expiresAt :: int
  bearerToken :: bool
  user_token :: JWT

definition isBearer :: "userContext \<Rightarrow> bool" where
  "isBearer user = bearerToken user"

record RequestScope =
  AccessDenied :: bool
  Identity :: "userContext option"

text \<open>
  What \<open>ctx.Value(contextScopeName).(*RequestScope)\<close> finds: no value of that type (the
  type assertion fails), a nil pointer, or a scope.
\<close>

datatype scope_value = NoScope | NilScope | ScopeOf RequestScope

text \<open>
  A \<open>Resource\<close>; its field \<open>EnableCSRF\<close> is \<open>Resource_EnableCSRF\<close> here, to tell it from
  the field of \<open>Config\<close>.
\<close>

record Resource =
  URL :: string
  Roles :: "string list"
  Groups :: "string list"
  RequireAnyRole :: bool
  Resource_EnableCSRF :: bool

text \<open>
  The identity provider's clients.  \<open>VerifyJWT\<close> returns the message of its error, if
  any; \<open>RequestToken\<close> returns the token response or the message of its error;
  \<open>OAuthClient\<close> returns the OAuth2 client or the message of its error.
\<close>

record TokenResponse =
  AccessToken :: string
  RefreshToken :: string
  RawBody :: string

record oauth2_Client =
  RequestToken :: "string \<Rightarrow> string \<Rightarrow> string + TokenResponse"

record oidc_Client =
  VerifyJWT :: "JWT \<Rightarrow> string option"
  OAuthClient :: "string + oauth2_Client"

record oidc_Identity =
  ExpiresAt :: int

definition GrantTypeAuthCode :: string where
  "GrantTypeAuthCode = ''authorization_code''"

definition GrantTypeRefreshToken :: string where
  "GrantTypeRefreshToken = ''refresh_token''"

section \<open>Token verification and refresh\<close>

text \<open>The scope loop of \<open>verifyToken\<close>: the first required scope that is not available.\<close>

fun missingScope :: "string list \<Rightarrow> string list \<Rightarrow> string option" where
  "missingScope [] availableScopes = None"
| "missingScope (required # rest) availableScopes =
     (if list_ex (\<lambda>available. available = required) availableScopes
      then missingScope rest availableScopes
      else Some required)"

definition verifyToken :: "Config \<Rightarrow> oidc_Client \<Rightarrow> JWT \<Rightarrow> error option" where
  "verifyToken cfg client token =
     (case VerifyJWT client token of
        Some err \<Rightarrow>
          (if strings_Contains err ''token is expired'' then Some ErrAccessTokenExpired
           else Some (External err))
      | None \<Rightarrow>
          (if length (RequiredScopes cfg) > 0 then
             (case Claims token of
                Inl err \<Rightarrow> Some (External err)
              | Inr claims \<Rightarrow>
                  (case claims ''scope'' of
                     None \<Rightarrow> Some (Errorf ''required scope claim absent from token'')
                   | Some scopeClaim \<Rightarrow>
                       (case scopeClaim of
                          JString scopeClaimAsStr \<Rightarrow>
                            (let availableScopes = strings_Split scopeClaimAsStr CHR '' ''
                             in case missingScope (RequiredScopes cfg) availableScopes of
                                  Some required \<Rightarrow>
                                    Some (Errorf (''required scope '' @ required @
                                                  '' absent from provided scopes in token''))
                                | None \<Rightarrow> None)
                        | _ \<Rightarrow>
                            Some (Errorf ''required scope claim is expected to be a string in token''))))
           else None))"

text \<open>
  \<open>getToken\<close>; the metrics that it records after a successful request are not part of the
  model.
\<close>

definition getToken :: "oauth2_Client \<Rightarrow> string \<Rightarrow> string \<Rightarrow> error + TokenResponse" where
  "getToken client grantType code =
     (case RequestToken client grantType code of
        Inl err \<Rightarrow> Inl (External err)
      | Inr token \<Rightarrow> Inr token)"

text \<open>
  \<open>parseToken\<close>, over the library functions \<open>jose.ParseJWT\<close> and
  \<open>oidc.IdentityFromClaims\<close>, each returning its result or the message of its error.
\<close>

definition parseToken ::
  "(string \<Rightarrow> string + JWT) \<Rightarrow> (claims \<Rightarrow> string + oidc_Identity) \<Rightarrow> string
     \<Rightarrow> error + JWT \<times> oidc_Identity" where
  "parseToken ParseJWT IdentityFromClaims t =
     (case ParseJWT t of
        Inl err \<Rightarrow> Inl (External err)
      | Inr token \<Rightarrow>
          (case Claims token of
             Inl err \<Rightarrow> Inl (External err)
           | Inr claims \<Rightarrow>
               (case IdentityFromClaims claims of
                  Inl err \<Rightarrow> Inl (External err)
                | Inr identity \<Rightarrow> Inr (token, identity))))"

text \<open>
  \<open>json.Number.Int64\<close> is \<open>strconv.ParseInt(s, 10, 64)\<close>: an optional sign, then at
  least one decimal digit and nothing else, and a value in the 64-bit range.
\<close>

definition digitValue :: "char \<Rightarrow> nat option" where
  "digitValue c =
     (if (48::nat) \<le> of_char c \<and> (of_char c :: nat) \<le> 57 then Some (of_char c - 48) else None)"

fun parseDigits :: "string \<Rightarrow> nat \<Rightarrow> nat option" where
  "parseDigits [] acc = Some acc"
| "parseDigits (c # cs) acc =
     (case digitValue c of None \<Rightarrow> None | Some v \<Rightarrow> parseDigits cs (acc * 10 + v))"

definition Int64 :: "string \<Rightarrow> int option" where
  "Int64 s =
     (let neg = (s \<noteq> [] \<and> hd s = CHR ''-'');
          ds = (if s \<noteq> [] \<and> (hd s = CHR ''+'' \<or> hd s = CHR ''-'') then tl s else s)
      in if ds = [] then None
         else (case parseDigits ds 0 of
                 None \<Rightarrow> None
               | Some n \<Rightarrow>
                   (if neg then (if n \<le> 2 ^ 63 then Some (- int n) else None)
                    else (if n < 2 ^ 63 then Some (int n) else None))))"

text \<open>
  \<open>time.Duration(asInt) * time.Second\<close>: a product of 64-bit integers, which wraps
  around.
\<close>

definition seconds :: "int \<Rightarrow> int" where
  "seconds asInt = sint ((word_of_int asInt :: 64 word) * 1000000000)"

text \<open>
  \<open>getRefreshedToken\<close>.  \<open>Unmarshal\<close> is \<open>json.Unmarshal\<close> into \<open>extraClaims\<close>: it
  gives the number text that the field \<open>refresh_expires_in\<close> of the raw body holds, and
  the empty string when the body has no such field or does not decode.  The result is the
  error, or the token, the refresh token, the expiry of the access token and the refresh
  expiry duration.
\<close>

definition getRefreshedToken ::
  "(string \<Rightarrow> string + JWT) \<Rightarrow> (claims \<Rightarrow> string + oidc_Identity) \<Rightarrow> (string \<Rightarrow> string)
     \<Rightarrow> oidc_Client \<Rightarrow> string \<Rightarrow> error + JWT \<times> string \<times> int \<times> int" where
  "getRefreshedToken ParseJWT IdentityFromClaims Unmarshal client t =
     (case OAuthClient client of
        Inl err \<Rightarrow> Inl (External err)
      | Inr cl \<Rightarrow>
          (case getToken cl GrantTypeRefreshToken t of
             Inl err \<Rightarrow>
               (case err of
                  External msg \<Rightarrow>
                    (if strings_Contains msg ''refresh token has expired''
                     then Inl ErrRefreshTokenExpired else Inl err)
                | _ \<Rightarrow> Inl err)
           | Inr response \<Rightarrow>
               (let RefreshExpiresIn = Unmarshal (RawBody response);
                    refreshExpiresIn =
                      (if RefreshExpiresIn \<noteq> [] then
                         (case Int64 RefreshExpiresIn of
                            Some asInt \<Rightarrow> seconds asInt
                          | None \<Rightarrow> 0)
                       else 0)
                in case parseToken ParseJWT IdentityFromClaims (AccessToken response) of
                     Inl err \<Rightarrow> Inl err
                   | Inr (token, identity) \<Rightarrow>
                       Inr (token, RefreshToken response, ExpiresAt identity, refreshExpiresIn))))"

section \<open>Middleware\<close>

text \<open>
  What \<open>authenticationMiddleware\<close> does with a request: it calls
  \<open>redirectToAuthorization\<close> or \<open>accessForbidden\<close> and then the next handler, it writes
  an error response and returns, or it calls the next handler with the identity in the
  request scope.
\<close>

datatype authentication =
    RedirectToAuthorization
  | AccessForbidden
  | ErrorResponse error nat
  | Authenticated

text \<open>
  \<open>authenticationMiddleware\<close>.  \<open>getIdentity\<close> is the result of \<open>r.getIdentity(req)\<close>,
  \<open>isExpired\<close> the method \<open>user.isExpired\<close>, \<open>refreshToken\<close> the result of
  \<open>r.refreshToken(w, req, user)\<close>; \<open>ctx\<close> is the request scope in the request's context.
  The result is what happens to the request, together with the request scope.
\<close>

definition authenticationMiddleware ::
  "Config \<Rightarrow> oidc_Client \<Rightarrow> (error + userContext) \<Rightarrow> (userContext \<Rightarrow> bool)
     \<Rightarrow> (userContext \<Rightarrow> error option) \<Rightarrow> scope_value
     \<Rightarrow> panic + authentication \<times> scope_value" where
  "authenticationMiddleware cfg client getIdentity isExpired refreshToken ctx =
     (case getIdentity of
        Inl err \<Rightarrow> Inr (RedirectToAuthorization, ctx)
      | Inr user \<Rightarrow>
          (case ctx of
             NoScope \<Rightarrow> Inl CorruptedContext
           | NilScope \<Rightarrow> Inl NilDereference
           | ScopeOf scope0 \<Rightarrow>
               (let scope = scope0 \<lparr> Identity := Some user \<rparr>
                in if SkipTokenVerification cfg then
                     (if isExpired user then Inr (RedirectToAuthorization, ScopeOf scope)
                      else Inr (Authenticated, ScopeOf scope))
                   else
                     (case verifyToken cfg client (user_token user) of
                        Some err \<Rightarrow>
                          (if err \<noteq> ErrAccessTokenExpired then Inr (AccessForbidden, ScopeOf scope)
                           else if \<not> EnableRefreshTokens cfg
                           then Inr (RedirectToAuthorization, ScopeOf scope)
                           else
                             (case refreshToken user of
                                Some err \<Rightarrow>
                                  (if err = ErrEncode \<or> err = ErrEncryption
                                   then Inr (ErrorResponse err 500, ScopeOf scope)
                                   else Inr (RedirectToAuthorization, ScopeOf scope))
                              | None \<Rightarrow> Inr (Authenticated, ScopeOf scope)))
                      | None \<Rightarrow> Inr (Authenticated, ScopeOf scope)))))"

text \<open>
  The library accessors \<open>Claims.StringClaim\<close> and \<open>Claims.StringsClaim\<close>: the value when
  the claim is a string (a list whose elements are all strings), \<open>None\<close> otherwise.
\<close>

definition StringClaim :: "claims \<Rightarrow> string \<Rightarrow> string option" where
  "StringClaim c claimName = (case c claimName of Some (JString v) \<Rightarrow> Some v | _ \<Rightarrow> None)"

fun asStrings :: "json list \<Rightarrow> string list option" where
  "asStrings [] = Some []"
| "asStrings (JString v # vs) = (case asStrings vs of Some ret \<Rightarrow> Some (v # ret) | None \<Rightarrow> None)"
| "asStrings (_ # vs) = None"

definition StringsClaim :: "claims \<Rightarrow> string \<Rightarrow> string list option" where
  "StringsClaim c claimName = (case c claimName of Some (JArray vs) \<Rightarrow> asStrings vs | _ \<Rightarrow> None)"

text \<open>
  \<open>checkClaim\<close>; a compiled \<open>regexp.Regexp\<close> is its predicate \<open>MatchString\<close>.  Every
  path that finds neither a string nor a list of strings returns false.
\<close>

definition checkClaim :: "userContext \<Rightarrow> string \<Rightarrow> (string \<Rightarrow> bool) \<Rightarrow> bool" where
  "checkClaim user claimName match =
     (case user_claims user claimName of
        None \<Rightarrow> False
      | Some found \<Rightarrow>
          (case StringClaim (user_claims user) claimName of
             Some valueStr \<Rightarrow> match valueStr
           | None \<Rightarrow>
               (case StringsClaim (user_claims user) claimName of
                  Some valueStrs \<Rightarrow> list_ex match valueStrs
                | None \<Rightarrow> False)))"

text \<open>
  Modelled from the spec: \<open>hasAccess\<close> is declared outside the files at hand; only its two
  calls are, \<open>hasAccess(resource.Roles, user.roles, !resource.RequireAnyRole, false)\<close> and
  \<open>hasAccess(resource.Groups, user.groups, false, true)\<close>.  The spec says of the role
  check: with \<open>require_any_role\<close>, permit iff the required and the held roles intersect
  or none is required, else permit iff every required role is held; and of the group
  check: permit iff every required group is held or none is required, group matching
  being always all-required.  So the third argument asks for every needed entry, and the
  fourth, which the group check sets, does the same.
\<close>

definition hasAccess :: "string list \<Rightarrow> string list \<Rightarrow> bool \<Rightarrow> bool \<Rightarrow> bool" where
  "hasAccess need held all groupCheck =
     (if need = [] then True
      else if all \<or> groupCheck then list_all (\<lambda>x. x \<in> set held) need
      else list_ex (\<lambda>x. x \<in> set held) need)"

text \<open>
  What \<open>admissionMiddleware\<close> does with a request: it passes a request on which a
  decision has been made to the next handler, it calls \<open>accessForbidden\<close>, or it
  permits.
\<close>

datatype admission = AlreadyDenied | Forbidden | Permitted

text \<open>The loop over \<open>claimMatches\<close>: it stops at the first claim that does not match.\<close>

fun checkClaims :: "userContext \<Rightarrow> (string \<times> (string \<Rightarrow> bool)) list \<Rightarrow> bool" where
  "checkClaims user [] = True"
| "checkClaims user ((claimName, match) # rest) =
     (if \<not> checkClaim user claimName match then False else checkClaims user rest)"

definition admissionMiddleware ::
  "Resource \<Rightarrow> (string \<times> (string \<Rightarrow> bool)) list \<Rightarrow> scope_value \<Rightarrow> panic + admission" where
  "admissionMiddleware resource claimMatches ctx =
     (case ctx of
        NoScope \<Rightarrow> Inl CorruptedContext
      | NilScope \<Rightarrow> Inl NilDereference
      | ScopeOf scope \<Rightarrow>
          (if AccessDenied scope then Inr AlreadyDenied
           else
             (case Identity scope of
                None \<Rightarrow> Inl NilDereference
              | Some user \<Rightarrow>
                  (if \<not> hasAccess (Roles resource) (roles user) (\<not> RequireAnyRole resource) False
                   then Inr Forbidden
                   else if \<not> hasAccess (Groups resource) (groups user) False True
                   then Inr Forbidden
                   else if \<not> checkClaims user claimMatches then Inr Forbidden
                   else Inr Permitted))))"

text \<open>
  What the CSRF stage of a resource hands to the next handler: the request marked by
  \<open>gcsrf.UnsafeSkipCheck\<close>, or the request as it is.
\<close>

datatype csrf_mark = UnsafeSkipCheck | Unmarked

definition csrfSkipResourceMiddleware :: "Config \<Rightarrow> Resource \<Rightarrow> scope_value \<Rightarrow> panic + csrf_mark" where
  "csrfSkipResourceMiddleware cfg resource ctx =
     (if EnableCSRF cfg then
        (if \<not> Resource_EnableCSRF resource then Inr UnsafeSkipCheck
         else
           (case ctx of
              NoScope \<Rightarrow> Inl CorruptedContext
            | NilScope \<Rightarrow> Inr Unmarked
            | ScopeOf scope \<Rightarrow>
                (if AccessDenied scope \<or> Identity scope = None then Inr Unmarked
                 else if isBearer (the (Identity scope)) then Inr UnsafeSkipCheck
                 else Inr Unmarked)))
      else Inr Unmarked)"


section \<open>Auxiliary definitions for the statements\<close>

text \<open>
  The cookies that the chunk loop writes for the chunk indices \<open>js\<close>, each chunk being
  \<open>m\<close> bytes of the value.
\<close>

definition chunkCookies ::
  "Config \<Rightarrow> int \<Rightarrow> string \<Rightarrow> string \<Rightarrow> string \<Rightarrow> int \<Rightarrow> nat \<Rightarrow> nat list \<Rightarrow> Cookie list" where
  "chunkCookies cfg now host name v d m js =
     concat (map (\<lambda>j. dropCookie cfg now [] host (name @ ''-'' @ Itoa (int j))
                         (take m (drop (j * m) v)) d) js)"

text \<open>
  The chunk budget in the words of the specification, where the length of the
  \<open>Expires\<close> attribute is subtracted when session cookies are disabled and the ttl is not
  zero.
\<close>

definition spec_MaxCookieChunkLength :: "Config \<Rightarrow> Request \<Rightarrow> string \<Rightarrow> int \<Rightarrow> int" where
  "spec_MaxCookieChunkLength cfg req cookieName ttl =
     4069 - int (length cookieName)
       - int (length (if CookieDomain cfg \<noteq> [] then CookieDomain cfg
                      else takeWhile (\<lambda>c. c \<noteq> CHR '':'') (Host req)))
       - (if HTTPOnlyCookie cfg then int (length ''HttpOnly; '') else 0)
       - (if \<not> EnableSessionCookies cfg \<and> ttl \<noteq> 0
          then int (length ''Expires=Mon, 02 Jan 2006 03:04:05 MST; '') else 0)
       - (if SecureCookie cfg then int (length ''Secure'') else 0)"

text \<open>
  The cookie that clears the name \<open>n\<close>: its value is empty, and it expires 10 hours
  before \<open>now\<close> unless session cookies are enabled, in which case \<open>dropCookie\<close> sets
  no expiry.
\<close>

definition expiredCookie :: "Config \<Rightarrow> int \<Rightarrow> Request \<Rightarrow> string \<Rightarrow> Cookie" where
  "expiredCookie cfg now req n =
     \<lparr> Domain_attr = (if CookieDomain cfg \<noteq> [] then CookieDomain cfg
                       else takeWhile (\<lambda>c. c \<noteq> CHR '':'') (Host req)),
       HttpOnly = HTTPOnlyCookie cfg, Name = n, Path = ''/'', Secure = SecureCookie cfg,
       Value = [],
       Expires = (if EnableSessionCookies cfg then None else Some (now - 10 * Hour)) \<rparr>"

text \<open>
  The refresh expiry in the words of the specification: the field \<open>refresh_expires_in\<close>
  in seconds when the body has it, and the time until the access token expires otherwise.
\<close>

definition spec_refreshExpiresIn :: "int \<Rightarrow> string \<Rightarrow> int \<Rightarrow> int" where
  "spec_refreshExpiresIn now RefreshExpiresIn expires_at =
     (case Int64 RefreshExpiresIn of
        Some asInt \<Rightarrow> asInt * 1000000000
      | None \<Rightarrow> expires_at - now)"

subsection \<open>Concrete configurations and requests\<close>

definition cfg_default :: Config where
  "cfg_default = \<lparr> CookieDomain = [], HTTPOnlyCookie = False, SecureCookie = False,
       EnableSessionCookies = True, CookieAccessName = ''kc-access'',
       CookieRefreshName = ''kc-state'', EnableCSRF = True, EnableRefreshTokens = True,
       SkipTokenVerification = False, RequiredScopes = [] \<rparr>"

text \<open>A cookie domain so long that the budget for the name \<open>kc\<close> is 3, 0 and \<open>-1\<close>.\<close>

definition cfg_small :: Config where
  "cfg_small = cfg_default \<lparr> CookieDomain := replicate 4064 CHR ''x'' \<rparr>"

definition cfg_zero :: Config where
  "cfg_zero = cfg_default \<lparr> CookieDomain := replicate 4067 CHR ''x'' \<rparr>"

definition cfg_negative :: Config where
  "cfg_negative = cfg_default \<lparr> CookieDomain := replicate 4068 CHR ''x'' \<rparr>"

definition cfg_expiring :: Config where
  "cfg_expiring = cfg_default \<lparr> EnableSessionCookies := False \<rparr>"

definition req_plain :: Request where
  "req_plain = \<lparr> Host = ''example.org:8080'', Cookies = [], RequestURI = ''/api'' \<rparr>"

definition req_session :: Request where
  "req_session = \<lparr> Host = ''example.org:8080'',
       Cookies = [(''kc-access'', ''a0''), (''kc-access-1'', ''a1''), (''kc-state'', ''r0''),
                  (''kc-state-1'', ''r1''), (''kc-state-2'', ''r2'')],
       RequestURI = ''/api'' \<rparr>"

definition jwt_plain :: JWT where
  "jwt_plain = \<lparr> Encode = ''h.p.s'', Claims = Inr [''scope'' \<mapsto> JString ''openid email profile''] \<rparr>"

definition user_session :: userContext where
  "user_session = \<lparr> email = ''ann@example.org'', user_name = ''ann'', roles = [''user''],
       groups = [''staff''], user_claims = [''iss'' \<mapsto> JString ''idp''], expiresAt = 5000,
       bearerToken = False, user_token = jwt_plain \<rparr>"

definition user_bearer :: userContext where
  "user_bearer = user_session \<lparr> bearerToken := True \<rparr>"

definition matches_admin :: "string \<Rightarrow> bool" where
  "matches_admin v = (v = ''admin'')"

definition res_open :: Resource where
  "res_open = \<lparr> URL = ''/api'', Roles = [], Groups = [], RequireAnyRole = True,
       Resource_EnableCSRF = True \<rparr>"

definition res_admin :: Resource where
  "res_admin = \<lparr> URL = ''/admin'', Roles = [''admin'', ''user''], Groups = [''staff''],
       RequireAnyRole = True, Resource_EnableCSRF = True \<rparr>"

definition token_response :: TokenResponse where
  "token_response = \<lparr> AccessToken = ''h.p.s'', RefreshToken = ''r2'', RawBody = ''{}'' \<rparr>"

definition client_expired :: oidc_Client where
  "client_expired = \<lparr> VerifyJWT = (\<lambda>t. Some ''oidc: JWT claims invalid: token is expired''),
       OAuthClient = Inr \<lparr> RequestToken = (\<lambda>grantType code. Inr token_response) \<rparr> \<rparr>"

definition client_valid :: oidc_Client where
  "client_valid = \<lparr> VerifyJWT = (\<lambda>t. None),
       OAuthClient = Inr \<lparr> RequestToken =
         (\<lambda>grantType code. Inl ''invalid_grant: refresh token has expired'') \<rparr> \<rparr>"

section \<open>Properties of the cookie envelope\<close>

lemma dropCookie_append:
  "dropCookie cfg now w host name v d = w @ dropCookie cfg now [] host name v d"
  by (simp add: dropCookie_def Let_def)

lemma dropCookie_Name_Value:
  "map Name (dropCookie cfg now [] host name v d) = [name]"
  "map Value (dropCookie cfg now [] host name v d) = [v]"
  "length (dropCookie cfg now [] host name v d) = 1"
  by (simp_all add: dropCookie_def Let_def)

lemma concat_chunks:
  "concat (map (\<lambda>j. take m (drop (j * m) V)) [0..<n]) = take (n * m) V"
proof (induction n)
  case 0
  then show ?case by simp
next
  case (Suc n)
  have "take (n * m) V @ take m (drop (n * m) V) = take (n * m + m) V"
    by (simp add: take_add)
  with Suc show ?case by (simp add: add.commute)
qed

lemma loop_chunks:
  assumes m: "0 < m"
  shows "dropCookieWithChunks_loop cfg now host name v d (int m) (int j * int m) w =
           Inr (w @ chunkCookies cfg now host name v d m [j..<(length v + m - 1) div m])"
proof (induction "(length v + m - 1) div m - j" arbitrary: j w)
  case 0
  then have "(length v + m - 1) div m < j + 1" by simp
  then have "length v + m - 1 < (j + 1) * m"
    using m by (simp only: div_less_iff_less_mult)
  then have "length v \<le> j * m" using m by simp
  then have "\<not> int j * int m < int (length v)"
    by (simp flip: of_nat_mult)
  then show ?case using 0
    by (subst dropCookieWithChunks_loop.simps) (simp add: chunkCookies_def)
next
  case (Suc k)
  let ?n = "(length v + m - 1) div m"
  from Suc.hyps(2) have jn: "j < ?n" by simp
  then have "Suc j \<le> ?n" by simp
  then have "Suc j * m \<le> length v + m - 1"
    using m by (simp only: less_eq_div_iff_mult_less_eq)
  then have lt: "j * m < length v" using m by simp
  then have lt': "int j * int m < int (length v)"
    by (simp flip: of_nat_mult)
  have dv: "go_div (int j * int m) (int m) = Inr (int j)"
    using m by (simp add: go_div_def sgn_if)
  have sl: "go_slice v (int j * int m)
              (if int (length v) < int j * int m + int m then int (length v) else int j * int m + int m)
            = Inr (take m (drop (j * m) v))"
    using lt by (auto simp: go_slice_def nat_add_distrib nat_mult_distrib simp flip: of_nat_add of_nat_mult)
  have k: "k = ?n - Suc j" using Suc.hyps(2) by simp
  have step: "int j * int m + int m = int (Suc j) * int m" by (simp add: algebra_simps)
  have sl': "go_slice v (int j * int m)
              (if int (length v) < int (Suc j) * int m then int (length v) else int (Suc j) * int m)
            = Inr (take m (drop (j * m) v))"
    using sl by (simp only: step)
  have up: "[j..<?n] = j # [Suc j..<?n]" using jn by (simp add: upt_conv_Cons)
  have "dropCookieWithChunks_loop cfg now host name v d (int m) (int j * int m) w =
        dropCookieWithChunks_loop cfg now host name v d (int m) (int (Suc j) * int m)
          (dropCookie cfg now w host (name @ ''-'' @ Itoa (int j)) (take m (drop (j * m) v)) d)"
    by (subst dropCookieWithChunks_loop.simps) (simp only: Let_def dv sl' step sum.case lt' if_True)
  also have "\<dots> = Inr (dropCookie cfg now w host (name @ ''-'' @ Itoa (int j)) (take m (drop (j * m) v)) d
                       @ chunkCookies cfg now host name v d m [Suc j..<?n])"
    by (rule Suc.hyps(1) [OF k])
  also have "\<dots> = Inr (w @ chunkCookies cfg now host name v d m [j..<?n])"
    using jn by (subst dropCookie_append) (simp add: upt_conv_Cons chunkCookies_def)
  finally show ?case .
qed


lemma chunkCookies_maps:
  "map Name (chunkCookies cfg now host name v d m js) = map (\<lambda>j. name @ ''-'' @ Itoa (int j)) js"
  "map Value (chunkCookies cfg now host name v d m js) = map (\<lambda>j. take m (drop (j * m) v)) js"
  "length (chunkCookies cfg now host name v d m js) = length js"
  by (induction js) (simp_all add: chunkCookies_def dropCookie_def Let_def)

lemma ceil_div_pos: "0 < (B::nat) \<Longrightarrow> B < L \<Longrightarrow> 1 < (L + B - 1) div B"
proof -
  assume "0 < B" "B < L"
  then have "2 * B \<le> L + B - 1" by simp
  then have "2 \<le> (L + B - 1) div B"
    using \<open>0 < B\<close> by (simp only: less_eq_div_iff_mult_less_eq)
  then show ?thesis by simp
qed

lemma ceil_div_cover: "0 < (B::nat) \<Longrightarrow> L \<le> (L + B - 1) div B * B"
proof -
  assume B: "0 < B"
  have "(L + B - 1) div B < (L + B - 1) div B + 1" by simp
  then have "L + B - 1 < ((L + B - 1) div B + 1) * B"
    using B by (simp only: div_less_iff_less_mult)
  then show ?thesis using B by simp
qed

lemma ceil_div_one: "0 < (B::nat) \<Longrightarrow> 0 < L \<Longrightarrow> L \<le> B \<Longrightarrow> (L + B - 1) div B = 1"
proof -
  assume a: "0 < B" "0 < L" "L \<le> B"
  then have "B * 1 \<le> L + B - 1" and "L + B - 1 < B * Suc 1" by simp_all
  then show ?thesis by (rule div_nat_eqI)
qed

lemma Itoa_small: "Itoa 0 = ''0''" "Itoa 1 = ''1''" "Itoa 2 = ''2''" "Itoa 3 = ''3''"
  by (simp_all add: Itoa_def digits.simps)

text \<open>
  C1.  Let the chunk budget \<open>B\<close> that \<open>getMaxCookieChunkLength\<close> computes for the request
  and the cookie name \<open>N\<close> be positive.  Then \<open>dropCookieWithChunks\<close> returns normally
  and appends cookies \<open>cs\<close> to the response such that: if the value \<open>V\<close> is at most \<open>B\<close>
  bytes long, \<open>cs\<close> is the one cookie that \<open>dropCookie\<close> writes for \<open>N\<close> and \<open>V\<close>; the
  names of \<open>cs\<close> are \<open>N\<close>, \<open>N-1\<close>, \<open>N-2\<close>, ... with the indices dense from 1; the value
  of the \<open>j\<close>-th cookie is the \<open>j\<close>-th successive slice of \<open>B\<close> bytes of \<open>V\<close> (the last
  one possibly shorter); there are \<open>\<lceil>|V| / B\<rceil>\<close> cookies (one for the empty value); and
  the values concatenated in this order are \<open>V\<close>.
\<close>

theorem dropCookieWithChunks_envelope:
  assumes B: "getMaxCookieChunkLength cfg req N = int B" and pos: "0 < B"
  shows "\<exists>cs. dropCookieWithChunks cfg now req w N V d = Inr (w @ cs)
           \<and> (length V \<le> B \<longrightarrow> cs = dropCookie cfg now [] (Host req) N V d)
           \<and> map Name cs = N # map (\<lambda>i. N @ ''-'' @ Itoa (int i)) [1..<length cs]
           \<and> map Value cs = map (\<lambda>j. take B (drop (j * B) V)) [0..<length cs]
           \<and> length cs = (if V = [] then 1 else (length V + B - 1) div B)
           \<and> concat (map Value cs) = V"
proof (cases "length V \<le> B")
  case True
  let ?cs = "dropCookie cfg now [] (Host req) N V d"
  have run: "dropCookieWithChunks cfg now req w N V d = Inr (w @ ?cs)"
    using True B by (simp add: dropCookieWithChunks_def dropCookie_append [of _ _ w])
  have len: "length ?cs = (if V = [] then 1 else (length V + B - 1) div B)"
    using True pos ceil_div_one [of B "length V"] by (auto simp: dropCookie_Name_Value)
  have nm: "map Name ?cs = N # map (\<lambda>i. N @ ''-'' @ Itoa (int i)) [1..<length ?cs]"
    by (simp add: dropCookie_Name_Value)
  have vl: "map Value ?cs = map (\<lambda>j. take B (drop (j * B) V)) [0..<length ?cs]"
    using True by (simp add: dropCookie_Name_Value)
  have cc: "concat (map Value ?cs) = V"
    by (simp add: dropCookie_Name_Value)
  show ?thesis by (intro exI [of _ ?cs] conjI impI run len nm vl cc refl)
next
  case False
  then have long: "B < length V" by simp
  let ?n = "(length V + B - 1) div B"
  let ?cs = "dropCookie cfg now [] (Host req) N (take B V) d
               @ chunkCookies cfg now (Host req) N V d B [1..<?n]"
  have n2: "1 < ?n" using pos long by (rule ceil_div_pos)
  have sl: "go_slice V 0 (int B) = Inr (take B V)"
    using long by (simp add: go_slice_def)
  have lp: "dropCookieWithChunks_loop cfg now (Host req) N V d (int B) (int B) w' =
              Inr (w' @ chunkCookies cfg now (Host req) N V d B [1..<?n])" for w'
    using loop_chunks [OF pos, of cfg now "Host req" N V d 1 w'] by simp
  have run: "dropCookieWithChunks cfg now req w N V d = Inr (w @ ?cs)"
    using long B
    by (simp add: dropCookieWithChunks_def sl lp dropCookie_append [of _ _ w])
  have len0: "length ?cs = ?n"
    using n2 by (simp add: dropCookie_Name_Value chunkCookies_maps)
  have len: "length ?cs = (if V = [] then 1 else ?n)"
    using len0 long by auto
  have nm: "map Name ?cs = N # map (\<lambda>i. N @ ''-'' @ Itoa (int i)) [1..<length ?cs]"
    by (simp only: len0) (simp add: dropCookie_Name_Value chunkCookies_maps)
  have vl0: "map Value ?cs = map (\<lambda>j. take B (drop (j * B) V)) [0..<?n]"
    using n2 by (simp add: dropCookie_Name_Value chunkCookies_maps upt_conv_Cons [of 0])
  have vl: "map Value ?cs = map (\<lambda>j. take B (drop (j * B) V)) [0..<length ?cs]"
    using vl0 by (simp only: len0)
  have cc: "concat (map Value ?cs) = V"
    using ceil_div_cover [OF pos, of "length V"] by (simp only: vl0 concat_chunks) simp
  have short: "length V \<le> B \<longrightarrow> ?cs = dropCookie cfg now [] (Host req) N V d"
    using long by simp
  show ?thesis by (intro exI [of _ ?cs] conjI run short len nm vl cc)
qed

theorem dropCookieWithChunks_envelope_witness:
  "getMaxCookieChunkLength cfg_small req_plain ''kc'' = int 3 \<and> (0::nat) < 3 \<and>
   (\<exists>cs. dropCookieWithChunks cfg_small 0 req_plain [] ''kc'' ''abcdefgh'' 0 = Inr ([] @ cs)
      \<and> map Name cs = [''kc'', ''kc-1'', ''kc-2'']
      \<and> map Value cs = [''abc'', ''def'', ''gh'']
      \<and> concat (map Value cs) = ''abcdefgh'')"
proof -
  have B: "getMaxCookieChunkLength cfg_small req_plain ''kc'' = int 3"
    by (simp add: getMaxCookieChunkLength_def cfg_small_def cfg_default_def)
  have pos: "(0::nat) < 3" by simp
  from dropCookieWithChunks_envelope [OF B pos, of 0 "[]" "''abcdefgh''" 0]
  obtain cs where cs: "dropCookieWithChunks cfg_small 0 req_plain [] ''kc'' ''abcdefgh'' 0 = Inr ([] @ cs)
     \<and> (length ''abcdefgh'' \<le> 3 \<longrightarrow> cs = dropCookie cfg_small 0 [] (Host req_plain) ''kc'' ''abcdefgh'' 0)
     \<and> map Name cs = ''kc'' # map (\<lambda>i. ''kc'' @ ''-'' @ Itoa (int i)) [1..<length cs]
     \<and> map Value cs = map (\<lambda>j. take 3 (drop (j * 3) ''abcdefgh'')) [0..<length cs]
     \<and> length cs = (if ''abcdefgh'' = [] then 1 else (length ''abcdefgh'' + 3 - 1) div 3)
     \<and> concat (map Value cs) = ''abcdefgh''" ..
  then have l: "length cs = 3" by simp
  have u: "[Suc 0..<3] = [Suc 0, 2]" "[0..<3] = [0, Suc 0, 2]" by (simp_all add: upt_rec)
  from cs have nm: "map Name cs = [''kc'', ''kc-1'', ''kc-2'']"
    by (simp add: l u Itoa_small)
  from cs have vl: "map Value cs = [''abc'', ''def'', ''gh'']"
    by (simp add: l u)
  from cs have run: "dropCookieWithChunks cfg_small 0 req_plain [] ''kc'' ''abcdefgh'' 0 = Inr ([] @ cs)"
    by (rule conjunct1)
  from cs have cc: "concat (map Value cs) = ''abcdefgh''"
    by (elim conjE)
  show ?thesis by (intro conjI exI [of _ cs] B pos run nm vl cc)
qed


lemma strings_Split_nonempty: "strings_Split s sep \<noteq> []"
  by (induction s) (auto split: list.splits)

lemma strings_Split_hd: "hd (strings_Split s sep) = takeWhile (\<lambda>c. c \<noteq> sep) s"
  by (induction s) (auto simp: strings_Split_nonempty split: list.splits)

text \<open>
  C2 (amended).  \<open>getMaxCookieChunkLength\<close> returns 4069 minus the length of the cookie
  name, minus the length of the configured cookie domain (or, when none is configured, of
  the \<open>Host\<close> header up to its first colon), minus the length of \<open>HttpOnly; \<close> when
  HTTP-only cookies are enabled, minus the length of the \<open>Expires\<close> attribute string
  whenever session cookies are disabled (the function does not see the ttl), and minus
  the length of \<open>Secure\<close> when the Secure flag is enabled.
\<close>

theorem getMaxCookieChunkLength_value:
  "getMaxCookieChunkLength cfg req cookieName =
     4069 - int (length cookieName)
       - int (length (if CookieDomain cfg \<noteq> [] then CookieDomain cfg
                      else takeWhile (\<lambda>c. c \<noteq> CHR '':'') (Host req)))
       - (if HTTPOnlyCookie cfg then int (length ''HttpOnly; '') else 0)
       - (if \<not> EnableSessionCookies cfg
          then int (length ''Expires=Mon, 02 Jan 2006 03:04:05 MST; '') else 0)
       - (if SecureCookie cfg then int (length ''Secure'') else 0)"
  by (simp add: getMaxCookieChunkLength_def strings_Split_hd)

theorem getMaxCookieChunkLength_value_witness:
  "getMaxCookieChunkLength cfg_expiring req_plain ''kc-access'' = 4010"
  using getMaxCookieChunkLength_value [of cfg_expiring req_plain "''kc-access''"]
  by (simp add: cfg_expiring_def cfg_default_def req_plain_def)

theorem getMaxCookieChunkLength_ttl_counterexample:
  "getMaxCookieChunkLength cfg_expiring req_plain ''kc-access'' = 4010 \<and>
   spec_MaxCookieChunkLength cfg_expiring req_plain ''kc-access'' 0 = 4049 \<and>
   getMaxCookieChunkLength cfg_expiring req_plain ''kc-access''
     \<noteq> spec_MaxCookieChunkLength cfg_expiring req_plain ''kc-access'' 0"
  by (simp add: getMaxCookieChunkLength_def spec_MaxCookieChunkLength_def cfg_expiring_def
      cfg_default_def req_plain_def)

text \<open>
  C9.  For every request and configuration, \<open>writeStateParameterCookie\<close> appends two
  cookies to the response: \<open>request_uri\<close>, whose value is the base64 encoding of the
  request URI, and \<open>request_state\<close>, whose value is the generated UUID, which it also
  returns; neither cookie has an \<open>Expires\<close> attribute, whatever the setting of
  \<open>EnableSessionCookies\<close>.
\<close>

theorem writeStateParameterCookie_session:
  "writeStateParameterCookie cfg now req w uuid =
     (w @ [\<lparr> Domain_attr = (if CookieDomain cfg \<noteq> [] then CookieDomain cfg
                              else takeWhile (\<lambda>c. c \<noteq> CHR '':'') (Host req)),
              HttpOnly = HTTPOnlyCookie cfg, Name = ''request_uri'', Path = ''/'',
              Secure = SecureCookie cfg, Value = EncodeToString (RequestURI req),
              Expires = None \<rparr>,
            \<lparr> Domain_attr = (if CookieDomain cfg \<noteq> [] then CookieDomain cfg
                              else takeWhile (\<lambda>c. c \<noteq> CHR '':'') (Host req)),
              HttpOnly = HTTPOnlyCookie cfg, Name = ''request_state'', Path = ''/'',
              Secure = SecureCookie cfg, Value = uuid, Expires = None \<rparr>],
      uuid)"
  by (simp add: writeStateParameterCookie_def dropCookie_def strings_Split_hd
      requestURICookie_def requestStateCookie_def)

theorem writeStateParameterCookie_session_witness:
  "map (\<lambda>c. (Name c, Value c, Expires c))
     (fst (writeStateParameterCookie cfg_expiring 1000 req_plain []
             ''6ba7b810-9dad-41d1-80b4-00c04fd430c8'')) =
   [(''request_uri'', ''L2FwaQ=='', None),
    (''request_state'', ''6ba7b810-9dad-41d1-80b4-00c04fd430c8'', None)]"
  using writeStateParameterCookie_session [of cfg_expiring 1000 req_plain "[]"
      "''6ba7b810-9dad-41d1-80b4-00c04fd430c8''"]
  by (simp add: req_plain_def encodeStd_def)

lemma dropCookieWithChunks_run:
  assumes B: "getMaxCookieChunkLength cfg req N = int B" and pos: "0 < B"
  shows "dropCookieWithChunks cfg now req w N V d =
           Inr (w @ (if length V \<le> B then dropCookie cfg now [] (Host req) N V d
                     else dropCookie cfg now [] (Host req) N (take B V) d
                            @ chunkCookies cfg now (Host req) N V d B [1..<(length V + B - 1) div B]))"
proof (cases "length V \<le> B")
  case True
  then show ?thesis
    using B by (simp add: dropCookieWithChunks_def dropCookie_append [of _ _ w])
next
  case False
  then have long: "B < length V" by simp
  have sl: "go_slice V 0 (int B) = Inr (take B V)"
    using long by (simp add: go_slice_def)
  have lp: "dropCookieWithChunks_loop cfg now (Host req) N V d (int B) (int B) w' =
              Inr (w' @ chunkCookies cfg now (Host req) N V d B [1..<(length V + B - 1) div B])" for w'
    using loop_chunks [OF pos, of cfg now "Host req" N V d 1 w'] by simp
  show ?thesis
    using long B
    by (simp add: dropCookieWithChunks_def sl lp dropCookie_append [of _ _ w])
qed

lemma dropCookieWithChunks_zero:
  assumes B: "getMaxCookieChunkLength cfg req N = 0" and V: "V \<noteq> []"
  shows "dropCookieWithChunks cfg now req w N V d = Inl DivideByZero"
proof -
  have sl: "go_slice V 0 0 = Inr []" by (simp add: go_slice_def)
  have "dropCookieWithChunks_loop cfg now (Host req) N V d 0 0 w' = Inl DivideByZero" for w'
    using V by (subst dropCookieWithChunks_loop.simps) (simp add: go_div_def)
  then show ?thesis using B V by (simp add: dropCookieWithChunks_def sl)
qed

lemma dropCookieWithChunks_negative:
  assumes B: "getMaxCookieChunkLength cfg req N < 0"
  shows "dropCookieWithChunks cfg now req w N V d = Inl SliceBoundsOutOfRange"
  using B by (simp add: dropCookieWithChunks_def go_slice_def Let_def)

lemma budget_values:
  "getMaxCookieChunkLength cfg_zero req_plain ''kc'' = 0"
  "getMaxCookieChunkLength cfg_negative req_plain ''kc'' = - 1"
  by (simp_all add: getMaxCookieChunkLength_def cfg_zero_def cfg_negative_def cfg_default_def)

text \<open>
  C10 (amended).  \<open>dropCookieWithChunks\<close> returns normally for every value exactly when
  the chunk budget that \<open>getMaxCookieChunkLength\<close> computes is positive.  With a budget
  of zero, every non-empty value makes it panic with an integer division by zero, in the
  first round of the chunk loop, where the chunk index \<open>i / budget\<close> is computed; with a
  negative budget every value makes it panic on the slice \<open>value[0:budget]\<close>.  The budget
  can be zero and can be negative.
\<close>

theorem dropCookieWithChunks_budget:
  "((\<forall>V. \<exists>w'. dropCookieWithChunks cfg now req w N V d = Inr w')
      \<longleftrightarrow> 0 < getMaxCookieChunkLength cfg req N)
   \<and> (getMaxCookieChunkLength cfg req N = 0 \<and> V \<noteq> []
        \<longrightarrow> dropCookieWithChunks cfg now req w N V d = Inl DivideByZero)
   \<and> (getMaxCookieChunkLength cfg req N < 0
        \<longrightarrow> dropCookieWithChunks cfg now req w N V d = Inl SliceBoundsOutOfRange)
   \<and> getMaxCookieChunkLength cfg_zero req_plain ''kc'' = 0
   \<and> getMaxCookieChunkLength cfg_negative req_plain ''kc'' < 0"
proof -
  let ?B = "getMaxCookieChunkLength cfg req N"
  have pos: "\<exists>w'. dropCookieWithChunks cfg now req w N V' d = Inr w'" if "0 < ?B" for V'
  proof -
    from that have "?B = int (nat ?B)" and "0 < nat ?B" by simp_all
    from dropCookieWithChunks_run [OF this] show ?thesis by blast
  qed
  have npos: "\<not> (\<forall>V. \<exists>w'. dropCookieWithChunks cfg now req w N V d = Inr w')" if "\<not> 0 < ?B"
  proof (cases "?B = 0")
    case True
    have "dropCookieWithChunks cfg now req w N ''a'' d = Inl DivideByZero"
      by (rule dropCookieWithChunks_zero [OF True]) simp
    then show ?thesis by (metis Inl_Inr_False)
  next
    case False
    with that have "?B < 0" by simp
    then have "dropCookieWithChunks cfg now req w N [] d = Inl SliceBoundsOutOfRange"
      by (rule dropCookieWithChunks_negative)
    then show ?thesis by (metis Inl_Inr_False)
  qed
  have iff: "(\<forall>V. \<exists>w'. dropCookieWithChunks cfg now req w N V d = Inr w') \<longleftrightarrow> 0 < ?B"
    using pos npos by blast
  show ?thesis
    using iff dropCookieWithChunks_zero [of cfg req N V now w d]
      dropCookieWithChunks_negative [of cfg req N now w V d] budget_values
    by simp
qed

theorem dropCookieWithChunks_budget_witness:
  "(\<forall>V. \<exists>w'. dropCookieWithChunks cfg_small 0 req_plain [] ''kc'' V 0 = Inr w')
   \<and> dropCookieWithChunks cfg_zero 0 req_plain [] ''kc'' ''abc'' 0 = Inl DivideByZero
   \<and> dropCookieWithChunks cfg_negative 0 req_plain [] ''kc'' ''abc'' 0 = Inl SliceBoundsOutOfRange"
proof -
  have s: "0 < getMaxCookieChunkLength cfg_small req_plain ''kc''"
    by (simp add: getMaxCookieChunkLength_def cfg_small_def cfg_default_def)
  have z: "getMaxCookieChunkLength cfg_zero req_plain ''kc'' = 0 \<and> ''abc'' \<noteq> []"
    by (simp add: getMaxCookieChunkLength_def cfg_zero_def cfg_default_def)
  have n: "getMaxCookieChunkLength cfg_negative req_plain ''kc'' < 0"
    by (simp add: getMaxCookieChunkLength_def cfg_negative_def cfg_default_def)
  show ?thesis
    using s z n
      dropCookieWithChunks_budget [of cfg_small 0 req_plain "[]" "''kc''" 0 "''abc''"]
      dropCookieWithChunks_budget [of cfg_zero 0 req_plain "[]" "''kc''" 0 "''abc''"]
      dropCookieWithChunks_budget [of cfg_negative 0 req_plain "[]" "''kc''" 0 "''abc''"]
    by blast
qed

theorem dropCookieWithChunks_zero_budget_counterexample:
  "getMaxCookieChunkLength cfg_zero req_plain ''kc'' = 0 \<and>
   dropCookieWithChunks cfg_zero 0 req_plain [] ''kc'' ''abc'' 0 = Inl DivideByZero"
proof -
  have z: "getMaxCookieChunkLength cfg_zero req_plain ''kc'' = 0"
    by (simp add: getMaxCookieChunkLength_def cfg_zero_def cfg_default_def)
  have sl: "go_slice ''abc'' 0 0 = Inr []" by (simp add: go_slice_def)
  have "dropCookieWithChunks_loop cfg_zero 0 (Host req_plain) ''kc'' ''abc'' 0 0 0 w' = Inl DivideByZero" for w'
    by (subst dropCookieWithChunks_loop.simps) (simp add: go_div_def)
  then show ?thesis using z by (simp add: dropCookieWithChunks_def sl)
qed


lemma digit_table_inj:
  "a < 10 \<Longrightarrow> b < 10 \<Longrightarrow> ''0123456789'' ! a = ''0123456789'' ! b \<Longrightarrow> a = b"
proof -
  assume a: "a < 10" and b: "b < 10" and e: "''0123456789'' ! a = ''0123456789'' ! b"
  have d: "distinct ''0123456789''" by simp
  have l: "length ''0123456789'' = 10" by simp
  from d a b e show ?thesis
    by (simp only: nth_eq_iff_index_eq l)
qed

lemma digit_table_no_minus: "a < 10 \<Longrightarrow> ''0123456789'' ! a \<noteq> CHR ''-''"
proof -
  assume "a < 10"
  then have "''0123456789'' ! a \<in> set ''0123456789''"
    by (intro nth_mem) simp
  then show ?thesis by auto
qed

lemma digits_nonempty: "digits n \<noteq> []" "[] \<noteq> digits n"
  by (subst digits.simps, simp)+

lemma digits_hd: "hd (digits n) \<noteq> CHR ''-''"
proof (induction n rule: digits.induct)
  case (1 n)
  show ?case
  proof (cases "n < 10")
    case True
    then show ?thesis by (subst digits.simps) (simp add: digit_table_no_minus)
  next
    case False
    with 1 show ?thesis by (subst digits.simps) (simp add: digits_nonempty)
  qed
qed

lemma digits_inj: "digits n = digits m \<Longrightarrow> n = m"
proof (induction n arbitrary: m rule: digits.induct)
  case (1 n)
  show ?case
  proof (cases "n < 10")
    case n: True
    show ?thesis
    proof (cases "m < 10")
      case True
      with n 1(2) show ?thesis
        by (simp add: digits.simps [of n] digits.simps [of m] digit_table_inj)
    next
      case False
      with n 1(2) show ?thesis
        by (simp add: digits.simps [of n] digits.simps [of m] digits_nonempty)
    qed
  next
    case n: False
    show ?thesis
    proof (cases "m < 10")
      case True
      with n 1(2) show ?thesis
        by (simp add: digits.simps [of n] digits.simps [of m] digits_nonempty)
    next
      case False
      with n 1(2) have e: "digits (n div 10) = digits (m div 10)"
        and l: "''0123456789'' ! (n mod 10) = ''0123456789'' ! (m mod 10)"
        by (simp_all add: digits.simps [of n] digits.simps [of m])
      from 1(1) [OF n e] have "n div 10 = m div 10" .
      moreover from l have "n mod 10 = m mod 10"
        by (intro digit_table_inj) simp_all
      ultimately show ?thesis by (metis div_mult_mod_eq)
    qed
  qed
qed

lemma Itoa_inj: "Itoa a = Itoa b \<Longrightarrow> a = b"
proof -
  assume e: "Itoa a = Itoa b"
  have ne: "CHR ''-'' # digits x \<noteq> digits y" for x y
    using digits_hd [of y] by (metis list.sel(1))
  show ?thesis
  proof (cases "a < 0")
    case a: True
    show ?thesis
    proof (cases "b < 0")
      case True
      with a e have "digits (nat (- a)) = digits (nat (- b))" by (simp add: Itoa_def)
      then have "nat (- a) = nat (- b)" by (rule digits_inj)
      with a True show ?thesis by simp
    next
      case False
      with a e ne show ?thesis by (simp add: Itoa_def)
    qed
  next
    case a: False
    show ?thesis
    proof (cases "b < 0")
      case True
      with a e ne [of "nat (- b)" "nat a"] show ?thesis by (simp add: Itoa_def)
    next
      case False
      with a e have "digits (nat a) = digits (nat b)" by (simp add: Itoa_def)
      then have "nat a = nat b" by (rule digits_inj)
      with a False show ?thesis by simp
    qed
  qed
qed

lemma Itoa_eq_iff: "Itoa a = Itoa b \<longleftrightarrow> a = b"
  using Itoa_inj by blast


lemma Itoa_is_small:
  "Itoa x = ''1'' \<longleftrightarrow> x = 1" "Itoa x = ''2'' \<longleftrightarrow> x = 2"
  "''1'' = Itoa x \<longleftrightarrow> x = 1" "''2'' = Itoa x \<longleftrightarrow> x = 2"
  using Itoa_eq_iff [of x 1] Itoa_eq_iff [of x 2] by (auto simp: Itoa_small)

lemma Hour_nonzero: "- 10 * Hour \<noteq> 0" "10 * Hour \<noteq> 0"
  by (simp_all add: Hour_def)

lemma dropCookie_expired:
  "dropCookie cfg now w (Host req) n [] (- 10 * Hour) = w @ [expiredCookie cfg now req n]"
  "dropCookie cfg now w (Host req) n [] (- (10 * Hour)) = w @ [expiredCookie cfg now req n]"
  using Hour_nonzero by (simp_all add: dropCookie_def expiredCookie_def strings_Split_hd)

lemma clear_loop:
  assumes present: "\<forall>i. j \<le> i \<and> i \<le> k \<longrightarrow> req_Cookie req (N @ ''-'' @ Itoa (int i)) \<noteq> None"
    and stop: "int (Suc k) < bound \<longrightarrow> req_Cookie req (N @ ''-'' @ Itoa (int (Suc k))) = None"
    and jk: "j \<le> Suc k" and kb: "int k < bound"
  shows "clearCookieChunks_loop cfg now req N bound (int j) w =
           w @ map (\<lambda>i. expiredCookie cfg now req (N @ ''-'' @ Itoa (int i))) [j..<Suc k]"
  using present jk
proof (induction "Suc k - j" arbitrary: j w)
  case 0
  then have j: "j = Suc k" by simp
  show ?case
    using stop by (subst clearCookieChunks_loop.simps) (auto simp: j)
next
  case (Suc d)
  then have jk: "j \<le> k" by simp
  with Suc.prems have "req_Cookie req (N @ ''-'' @ Itoa (int j)) \<noteq> None" by simp
  then obtain c where c: "req_Cookie req (N @ ''-'' @ Itoa (int j)) = Some c" by blast
  have lt: "int j < bound" using jk kb by simp
  have d: "d = Suc k - Suc j" using Suc.hyps(2) by simp
  have p: "\<forall>i. Suc j \<le> i \<and> i \<le> k \<longrightarrow> req_Cookie req (N @ ''-'' @ Itoa (int i)) \<noteq> None"
    using Suc.prems(1) by simp
  have s: "Suc j \<le> Suc k" using jk by simp
  have step: "int j + 1 = int (Suc j)" by simp
  have "clearCookieChunks_loop cfg now req N bound (int j) w =
        clearCookieChunks_loop cfg now req N bound (int (Suc j))
          (w @ [expiredCookie cfg now req (N @ ''-'' @ Itoa (int j))])"
    by (subst clearCookieChunks_loop.simps)
       (simp only: lt if_True c option.case step dropCookie_expired)
  also have "\<dots> = (w @ [expiredCookie cfg now req (N @ ''-'' @ Itoa (int j))])
                    @ map (\<lambda>i. expiredCookie cfg now req (N @ ''-'' @ Itoa (int i))) [Suc j..<Suc k]"
    by (rule Suc.hyps(1) [OF d p s])
  also have "\<dots> = w @ map (\<lambda>i. expiredCookie cfg now req (N @ ''-'' @ Itoa (int i))) [j..<Suc k]"
    using jk by (simp add: upt_conv_Cons [of j] del: upt_Suc)
  finally show ?case .
qed

text \<open>
  C3 (amended).  Let the chunk cookies of the envelope \<open>N\<close> in the request be densely
  numbered \<open>N-1\<close> ... \<open>N-k\<close>.  If \<open>N\<close> is the refresh cookie name and \<open>k < 600\<close>, then
  \<open>clearRefreshTokenCookie\<close> appends to the response one clearing cookie for \<open>N\<close> and
  one for every chunk \<open>N-1\<close> ... \<open>N-k\<close>, in this order, and nothing else; if \<open>N\<close> is the
  access cookie name and the request carries more than \<open>k\<close> cookies, then
  \<open>clearAccessTokenCookie\<close> does the same.  A clearing cookie has the empty value; its
  expiry is 10 hours in the past when session cookies are disabled, and it has no
  expiry when they are enabled.  The two functions return nothing, so no error.
\<close>

theorem clear_envelope:
  assumes dense: "\<forall>i\<ge>1. (req_Cookie req (N @ ''-'' @ Itoa (int i)) \<noteq> None) = (i \<le> k)"
  shows "(N = CookieRefreshName cfg \<and> k < 600 \<longrightarrow>
            clearRefreshTokenCookie cfg now req w =
              w @ map (expiredCookie cfg now req) (N # map (\<lambda>i. N @ ''-'' @ Itoa (int i)) [1..<Suc k]))
       \<and> (N = CookieAccessName cfg \<and> k < length (Cookies req) \<longrightarrow>
            clearAccessTokenCookie cfg now req w =
              w @ map (expiredCookie cfg now req) (N # map (\<lambda>i. N @ ''-'' @ Itoa (int i)) [1..<Suc k]))
       \<and> Value (expiredCookie cfg now req n) = []
       \<and> Expires (expiredCookie cfg now req n) =
            (if EnableSessionCookies cfg then None else Some (now - 10 * Hour))"
proof -
  have present: "\<forall>i. 1 \<le> i \<and> i \<le> k \<longrightarrow> req_Cookie req (N @ ''-'' @ Itoa (int i)) \<noteq> None"
    using dense by simp
  have "1 \<le> Suc k" by simp
  with dense have "(req_Cookie req (N @ ''-'' @ Itoa (int (Suc k))) \<noteq> None) = (Suc k \<le> k)"
    by blast
  then have absent: "req_Cookie req (N @ ''-'' @ Itoa (int (Suc k))) = None"
    by (metis Suc_n_not_le_n)
  have stop: "int (Suc k) < bound \<longrightarrow> req_Cookie req (N @ ''-'' @ Itoa (int (Suc k))) = None" for bound
    using absent by (rule impI)
  have loop: "clearCookieChunks_loop cfg now req N bound 1 w' =
                w' @ map (\<lambda>i. expiredCookie cfg now req (N @ ''-'' @ Itoa (int i))) [1..<Suc k]"
    if "int k < bound" for bound w'
    using clear_loop [OF present stop _ that, of cfg now w'] by simp
  have r: "clearRefreshTokenCookie cfg now req w =
             w @ map (expiredCookie cfg now req) (N # map (\<lambda>i. N @ ''-'' @ Itoa (int i)) [1..<Suc k])"
    if "N = CookieRefreshName cfg" "k < 600"
    using that loop [of 600]
    by (simp add: clearRefreshTokenCookie_def dropCookie_expired comp_def del: upt_Suc)
  have a: "clearAccessTokenCookie cfg now req w =
             w @ map (expiredCookie cfg now req) (N # map (\<lambda>i. N @ ''-'' @ Itoa (int i)) [1..<Suc k])"
    if "N = CookieAccessName cfg" "k < length (Cookies req)"
    using that loop [of "int (length (Cookies req))"]
    by (simp add: clearAccessTokenCookie_def dropCookie_expired comp_def del: upt_Suc)
  show ?thesis using r a by (simp add: expiredCookie_def)
qed

theorem clear_envelope_witness:
  "clearRefreshTokenCookie cfg_expiring (20 * Hour) req_session [] =
     map (expiredCookie cfg_expiring (20 * Hour) req_session) [''kc-state'', ''kc-state-1'', ''kc-state-2'']
   \<and> clearAccessTokenCookie cfg_expiring (20 * Hour) req_session [] =
     map (expiredCookie cfg_expiring (20 * Hour) req_session) [''kc-access'', ''kc-access-1'']
   \<and> Expires (expiredCookie cfg_expiring (20 * Hour) req_session ''kc-state'') = Some (10 * Hour)"
proof -
  have r: "\<forall>i\<ge>1. (req_Cookie req_session (''kc-state'' @ ''-'' @ Itoa (int i)) \<noteq> None) = (i \<le> 2)"
    by (auto simp: req_Cookie_def req_session_def Itoa_is_small)
  have a: "\<forall>i\<ge>1. (req_Cookie req_session (''kc-access'' @ ''-'' @ Itoa (int i)) \<noteq> None) = (i \<le> 1)"
    by (auto simp: req_Cookie_def req_session_def Itoa_is_small)
  have n: "CookieRefreshName cfg_expiring = ''kc-state''" "CookieAccessName cfg_expiring = ''kc-access''"
     "\<not> EnableSessionCookies cfg_expiring"
    by (simp_all add: cfg_expiring_def cfg_default_def)
  have u: "[Suc 0..<3] = [Suc 0, 2]" "[Suc 0..<2] = [Suc 0]" by (simp_all add: upt_rec)
  have l: "length (Cookies req_session) = 5" by (simp add: req_session_def)
  from clear_envelope [OF r, of cfg_expiring "20 * Hour" "[]" "''kc-state''"]
  have 1: "clearRefreshTokenCookie cfg_expiring (20 * Hour) req_session [] =
     map (expiredCookie cfg_expiring (20 * Hour) req_session) [''kc-state'', ''kc-state-1'', ''kc-state-2'']"
    and 3: "Expires (expiredCookie cfg_expiring (20 * Hour) req_session ''kc-state'') = Some (10 * Hour)"
    by (simp_all add: n u Itoa_small)
  from clear_envelope [OF a, of cfg_expiring "20 * Hour" "[]" "''kc''"]
  have 2: "clearAccessTokenCookie cfg_expiring (20 * Hour) req_session [] =
     map (expiredCookie cfg_expiring (20 * Hour) req_session) [''kc-access'', ''kc-access-1'']"
    by (simp add: n u l Itoa_small)
  from 1 2 3 show ?thesis by simp
qed

theorem clear_session_cookie_counterexample:
  "map Expires (clearRefreshTokenCookie cfg_default (20 * Hour) req_session []) = [None, None, None]
   \<and> map Expires (clearAccessTokenCookie cfg_default (20 * Hour) req_session []) = [None, None]"
  by (simp add: clearRefreshTokenCookie_def clearAccessTokenCookie_def clearCookieChunks_loop.simps
      req_Cookie_def req_session_def cfg_default_def dropCookie_def Itoa_def digits.simps)

lemma clearAccessTokenCookie_underclears:
  "map Name (clearAccessTokenCookie cfg_default 0
      (req_plain \<lparr> Cookies := [(''kc-access-1'', ''a1'')] \<rparr>) []) = [''kc-access'']"
  by (simp add: clearAccessTokenCookie_def clearCookieChunks_loop.simps
      req_Cookie_def req_plain_def cfg_default_def dropCookie_def Itoa_def digits.simps)


text \<open>
  With 600 or more chunks in the request, \<open>clearRefreshTokenCookie\<close> clears the first
  599 of them.
\<close>

lemma clearRefreshTokenCookie_bound:
  assumes "\<forall>i. 1 \<le> i \<and> i \<le> 599 \<longrightarrow> req_Cookie req (CookieRefreshName cfg @ ''-'' @ Itoa (int i)) \<noteq> None"
  shows "clearRefreshTokenCookie cfg now req w =
           w @ map (expiredCookie cfg now req)
                 (CookieRefreshName cfg # map (\<lambda>i. CookieRefreshName cfg @ ''-'' @ Itoa (int i)) [1..<600])"
proof -
  have "clearCookieChunks_loop cfg now req (CookieRefreshName cfg) 600 (int 1) w' =
          w' @ map (\<lambda>i. expiredCookie cfg now req (CookieRefreshName cfg @ ''-'' @ Itoa (int i))) [1..<Suc 599]"
    for w'
    by (rule clear_loop [OF assms]) simp_all
  then show ?thesis
    by (simp add: clearRefreshTokenCookie_def dropCookie_expired comp_def del: upt_Suc)
qed


section \<open>Properties of token verification and refresh\<close>

lemma strings_Contains_iff: "strings_Contains s sub \<longleftrightarrow> (\<exists>p q. s = p @ sub @ q)"
proof (induction s)
  case Nil
  then show ?case by auto
next
  case (Cons c cs)
  show ?case
  proof
    assume "strings_Contains (c # cs) sub"
    then consider "prefix sub (c # cs)" | "strings_Contains cs sub" by auto
    then show "\<exists>p q. c # cs = p @ sub @ q"
    proof cases
      case 1
      then obtain q where "c # cs = sub @ q" by (auto simp: prefix_def)
      then have "c # cs = [] @ sub @ q" by simp
      then show ?thesis by blast
    next
      case 2
      with Cons obtain p q where "cs = p @ sub @ q" by blast
      then have "c # cs = (c # p) @ sub @ q" by simp
      then show ?thesis by blast
    qed
  next
    assume "\<exists>p q. c # cs = p @ sub @ q"
    then obtain p q where e: "c # cs = p @ sub @ q" by blast
    show "strings_Contains (c # cs) sub"
    proof (cases p)
      case Nil
      with e have "prefix sub (c # cs)" by (simp add: prefix_def)
      then show ?thesis by simp
    next
      case (Cons a p')
      with e have "cs = p' @ sub @ q" by simp
      with Cons.IH have "strings_Contains cs sub" by blast
      then show ?thesis by simp
    qed
  qed
qed

lemma missingScope_None:
  "missingScope required availableScopes = None \<longleftrightarrow> set required \<subseteq> set availableScopes"
  by (induction required) (auto simp: list_ex_iff)

text \<open>
  C6.  When \<open>VerifyJWT\<close> fails, \<open>verifyToken\<close> returns \<open>ErrAccessTokenExpired\<close> if the
  message of the failure contains \<open>token is expired\<close>, and the failure itself otherwise.
  When verification succeeds and required scopes are configured, it returns no error
  exactly when the token has claims, the claim \<open>scope\<close> is present and is a string, and
  every required scope is among the pieces of that string between single spaces.  When
  verification succeeds and no scope is required, it returns no error.
\<close>

theorem verifyToken_result:
  "(VerifyJWT client token = Some err \<longrightarrow>
      verifyToken cfg client token =
        Some (if strings_Contains err ''token is expired'' then ErrAccessTokenExpired
              else External err))
   \<and> (VerifyJWT client token = None \<and> RequiredScopes cfg \<noteq> [] \<longrightarrow>
        (verifyToken cfg client token = None \<longleftrightarrow>
           (\<exists>claims s. Claims token = Inr claims \<and> claims ''scope'' = Some (JString s)
              \<and> set (RequiredScopes cfg) \<subseteq> set (strings_Split s CHR '' ''))))
   \<and> (VerifyJWT client token = None \<and> RequiredScopes cfg = [] \<longrightarrow>
        verifyToken cfg client token = None)"
  by (auto simp: verifyToken_def missingScope_None [symmetric]
      split: sum.splits option.splits json.splits)

theorem verifyToken_result_witness:
  "verifyToken cfg_default client_expired jwt_plain = Some ErrAccessTokenExpired
   \<and> verifyToken (cfg_default \<lparr> RequiredScopes := [''email'', ''openid''] \<rparr>) client_valid jwt_plain = None
   \<and> verifyToken (cfg_default \<lparr> RequiredScopes := [''admin''] \<rparr>) client_valid jwt_plain \<noteq> None
   \<and> verifyToken cfg_default client_valid jwt_plain = None"
proof -
  have 1: "VerifyJWT client_expired jwt_plain = Some ''oidc: JWT claims invalid: token is expired''"
    by (simp add: client_expired_def)
  have c: "strings_Contains ''oidc: JWT claims invalid: token is expired'' ''token is expired''"
    by simp
  have 2: "VerifyJWT client_valid jwt_plain = None" by (simp add: client_valid_def)
  have s: "strings_Split ''openid email profile'' CHR '' '' = [''openid'', ''email'', ''profile'']"
    by simp
  have cl: "Claims jwt_plain = Inr [''scope'' \<mapsto> JString ''openid email profile'']"
    by (simp add: jwt_plain_def)
  show ?thesis
    using 1 c 2
      verifyToken_result [of client_expired jwt_plain _ cfg_default]
      verifyToken_result [of client_valid jwt_plain _ "cfg_default \<lparr> RequiredScopes := [''email'', ''openid''] \<rparr>"]
      verifyToken_result [of client_valid jwt_plain _ "cfg_default \<lparr> RequiredScopes := [''admin''] \<rparr>"]
      verifyToken_result [of client_valid jwt_plain _ cfg_default]
    by (simp add: cl s cfg_default_def)
qed

lemma digitValue_table: "m < 10 \<Longrightarrow> digitValue (''0123456789'' ! m) = Some m"
proof -
  assume "m < 10"
  then have "m \<in> {0, 1, 2, 3, 4, 5, 6, 7, 8, 9}" by auto
  then show ?thesis by (auto simp: digitValue_def)
qed

lemma parseDigits_snoc:
  "parseDigits (xs @ [c]) acc =
     (case parseDigits xs acc of
        None \<Rightarrow> None
      | Some a \<Rightarrow> (case digitValue c of None \<Rightarrow> None | Some v \<Rightarrow> Some (a * 10 + v)))"
  by (induction xs arbitrary: acc) (auto split: option.splits)

lemma parseDigits_digits: "parseDigits (digits m) 0 = Some m"
proof (induction m rule: digits.induct)
  case (1 n)
  show ?case
  proof (cases "n < 10")
    case True
    then show ?thesis by (subst digits.simps) (simp add: digitValue_table)
  next
    case False
    then have "parseDigits (digits (n div 10)) 0 = Some (n div 10)" by (rule 1)
    with False show ?thesis
      by (subst digits.simps) (simp add: parseDigits_snoc digitValue_table)
  qed
qed

lemma digit_table_no_plus: "a < 10 \<Longrightarrow> ''0123456789'' ! a \<noteq> CHR ''+''"
proof -
  assume "a < 10"
  then have "''0123456789'' ! a \<in> set ''0123456789''"
    by (intro nth_mem) simp
  then show ?thesis by auto
qed

lemma digits_hd_plus: "hd (digits n) \<noteq> CHR ''+''"
proof (induction n rule: digits.induct)
  case (1 n)
  show ?case
  proof (cases "n < 10")
    case True
    then show ?thesis by (subst digits.simps) (simp add: digit_table_no_plus)
  next
    case False
    with 1 show ?thesis by (subst digits.simps) (simp add: digits_nonempty)
  qed
qed

lemma Int64_Itoa:
  assumes "- (2 ^ 63) \<le> n" and "n < 2 ^ 63"
  shows "Int64 (Itoa n) = Some n"
proof (cases "n < 0")
  case True
  with assms have "nat (- n) \<le> 2 ^ 63" by simp
  with True show ?thesis
    by (simp add: Int64_def Itoa_def digits_nonempty parseDigits_digits)
next
  case False
  with assms have "nat n < 2 ^ 63" by simp
  with False show ?thesis
    using digits_hd [of "nat n"] digits_hd_plus [of "nat n"]
    by (simp add: Int64_def Itoa_def digits_nonempty parseDigits_digits)
qed

lemma seconds_exact:
  assumes "- 9223372036 \<le> n" and "n \<le> 9223372036"
  shows "seconds n = n * 1000000000"
proof -
  have e: "(word_of_int n :: 64 word) * 1000000000 = word_of_int (n * 1000000000)"
    by simp
  have "seconds n = sint (word_of_int (n * 1000000000) :: 64 word)"
    by (simp only: seconds_def e)
  also have "\<dots> = signed_take_bit (LENGTH(64) - 1) (n * 1000000000)"
    by (rule sint_sbintrunc')
  also have "\<dots> = n * 1000000000"
    using assms by (intro signed_take_bit_int_eq_self) simp_all
  finally show ?thesis .
qed

lemma Int64_empty: "Int64 [] = None"
  by (simp add: Int64_def)

text \<open>
  C7 (amended).  Let \<open>client.OAuthClient()\<close> succeed.  If the token request fails,
  \<open>getRefreshedToken\<close> returns \<open>ErrRefreshTokenExpired\<close> when the message of the
  failure contains \<open>refresh token has expired\<close>, and the failure itself otherwise.  If
  the request succeeds and the access token parses, it returns the token, the refresh
  token, the expiry of the access token and, as the refresh expiry, the field
  \<open>refresh_expires_in\<close> of the raw body read as a 64-bit integer and multiplied by one
  second in 64-bit arithmetic; this is zero when the field is absent, empty or not such
  an integer.  A decimal number of seconds between 0 and 9223372036 is read back and
  multiplied without wrap-around.
\<close>

theorem getRefreshedToken_result:
  assumes "OAuthClient client = Inr cl"
  shows "(RequestToken cl GrantTypeRefreshToken t = Inl msg \<longrightarrow>
            getRefreshedToken ParseJWT IdentityFromClaims Unmarshal client t =
              Inl (if strings_Contains msg ''refresh token has expired''
                   then ErrRefreshTokenExpired else External msg))
       \<and> (RequestToken cl GrantTypeRefreshToken t = Inr response
            \<and> parseToken ParseJWT IdentityFromClaims (AccessToken response) = Inr (tok, identity) \<longrightarrow>
            getRefreshedToken ParseJWT IdentityFromClaims Unmarshal client t =
              Inr (tok, RefreshToken response, ExpiresAt identity,
                   (case Int64 (Unmarshal (RawBody response)) of
                      Some asInt \<Rightarrow> seconds asInt
                    | None \<Rightarrow> 0)))
       \<and> Int64 [] = None
       \<and> (0 \<le> n \<and> n \<le> 9223372036 \<longrightarrow> Int64 (Itoa n) = Some n \<and> seconds n = n * 1000000000)"
proof -
  have ttl: "(if s \<noteq> [] then (case Int64 s of Some asInt \<Rightarrow> seconds asInt | None \<Rightarrow> 0) else 0) =
             (case Int64 s of Some asInt \<Rightarrow> seconds asInt | None \<Rightarrow> 0)" for s
    by (simp add: Int64_empty)
  have 1: "getRefreshedToken ParseJWT IdentityFromClaims Unmarshal client t =
              Inl (if strings_Contains msg ''refresh token has expired''
                   then ErrRefreshTokenExpired else External msg)"
    if "RequestToken cl GrantTypeRefreshToken t = Inl msg"
    using assms that by (simp add: getRefreshedToken_def getToken_def)
  have 2: "getRefreshedToken ParseJWT IdentityFromClaims Unmarshal client t =
              Inr (tok, RefreshToken response, ExpiresAt identity,
                   (case Int64 (Unmarshal (RawBody response)) of
                      Some asInt \<Rightarrow> seconds asInt
                    | None \<Rightarrow> 0))"
    if "RequestToken cl GrantTypeRefreshToken t = Inr response"
      and "parseToken ParseJWT IdentityFromClaims (AccessToken response) = Inr (tok, identity)"
    using assms that by (simp add: getRefreshedToken_def getToken_def Let_def ttl)
  have 3: "Int64 (Itoa n) = Some n \<and> seconds n = n * 1000000000"
    if "0 \<le> n" and "n \<le> 9223372036"
    using that Int64_Itoa [of n] seconds_exact [of n] by simp
  from 1 2 3 show ?thesis by (simp add: Int64_empty)
qed


theorem getRefreshedToken_result_witness:
  "getRefreshedToken (\<lambda>t. Inr jwt_plain) (\<lambda>c. Inr \<lparr> ExpiresAt = 5000 \<rparr>) (\<lambda>body. ''1800'')
      client_expired ''r1'' = Inr (jwt_plain, ''r2'', 5000, 1800000000000)
   \<and> getRefreshedToken (\<lambda>t. Inr jwt_plain) (\<lambda>c. Inr \<lparr> ExpiresAt = 5000 \<rparr>) (\<lambda>body. ''1800'')
      client_valid ''r1'' = Inl ErrRefreshTokenExpired"
proof -
  have o: "OAuthClient client_expired = Inr \<lparr> RequestToken = (\<lambda>grantType code. Inr token_response) \<rparr>"
    by (simp add: client_expired_def)
  have o': "OAuthClient client_valid = Inr \<lparr> RequestToken =
         (\<lambda>grantType code. Inl ''invalid_grant: refresh token has expired'') \<rparr>"
    by (simp add: client_valid_def)
  have p: "parseToken (\<lambda>t. Inr jwt_plain) (\<lambda>c. Inr \<lparr> ExpiresAt = 5000 \<rparr>) (AccessToken token_response)
             = Inr (jwt_plain, \<lparr> ExpiresAt = 5000 \<rparr>)"
    by (simp add: parseToken_def jwt_plain_def)
  have i: "Itoa 1800 = ''1800''" by (simp add: Itoa_def digits.simps)
  have c: "strings_Contains ''invalid_grant: refresh token has expired'' ''refresh token has expired''"
    by simp
  show ?thesis
    using getRefreshedToken_result [OF o, where t = "''r1''" and response = token_response
        and ParseJWT = "\<lambda>t. Inr jwt_plain" and IdentityFromClaims = "\<lambda>c. Inr \<lparr> ExpiresAt = 5000 \<rparr>"
        and tok = jwt_plain and identity = "\<lparr> ExpiresAt = 5000 \<rparr>"
        and Unmarshal = "\<lambda>body. ''1800''" and n = 1800]
      getRefreshedToken_result [OF o', where t = "''r1''"
        and msg = "''invalid_grant: refresh token has expired''"
        and ParseJWT = "\<lambda>t. Inr jwt_plain" and IdentityFromClaims = "\<lambda>c. Inr \<lparr> ExpiresAt = 5000 \<rparr>"
        and Unmarshal = "\<lambda>body. ''1800''" and n = 1800]
      p c
    by (simp add: i token_response_def)
qed

theorem getRefreshedToken_fallback_counterexample:
  "getRefreshedToken (\<lambda>t. Inr jwt_plain) (\<lambda>c. Inr \<lparr> ExpiresAt = 5000 \<rparr>) (\<lambda>body. [])
      client_expired ''r1'' = Inr (jwt_plain, ''r2'', 5000, 0)
   \<and> spec_refreshExpiresIn 1000 [] 5000 = 4000"
  by (simp add: getRefreshedToken_def getToken_def client_expired_def parseToken_def
      jwt_plain_def token_response_def spec_refreshExpiresIn_def Int64_def)


section \<open>Properties of the middleware\<close>

text \<open>
  C5.  Let the request carry an identity, token verification be on, \<open>verifyToken\<close>
  return \<open>ErrAccessTokenExpired\<close>, refresh be enabled and \<open>refreshToken\<close> fail with
  \<open>err\<close>.  Then \<open>authenticationMiddleware\<close> writes an error response with status 500 and
  does not redirect when \<open>err\<close> is \<open>ErrEncode\<close> or \<open>ErrEncryption\<close>, and it redirects to
  authorization for every other \<open>err\<close>; the identity is in the request scope in both
  cases.
\<close>

theorem authenticationMiddleware_refresh_failure:
  assumes "getIdentity = Inr user" and "\<not> SkipTokenVerification cfg"
    and "verifyToken cfg client (user_token user) = Some ErrAccessTokenExpired"
    and "EnableRefreshTokens cfg" and "refreshToken user = Some err"
  shows "authenticationMiddleware cfg client getIdentity isExpired refreshToken (ScopeOf scope) =
           Inr (if err = ErrEncode \<or> err = ErrEncryption then ErrorResponse err 500
                else RedirectToAuthorization,
                ScopeOf (scope \<lparr> Identity := Some user \<rparr>))"
  using assms by (simp add: authenticationMiddleware_def)

theorem authenticationMiddleware_refresh_failure_witness:
  "authenticationMiddleware cfg_default client_expired (Inr user_session) (\<lambda>u. False)
     (\<lambda>u. Some ErrEncryption) (ScopeOf \<lparr> AccessDenied = False, Identity = None \<rparr>) =
     Inr (ErrorResponse ErrEncryption 500,
          ScopeOf \<lparr> AccessDenied = False, Identity = Some user_session \<rparr>)
   \<and> authenticationMiddleware cfg_default client_expired (Inr user_session) (\<lambda>u. False)
     (\<lambda>u. Some ErrRefreshTokenExpired) (ScopeOf \<lparr> AccessDenied = False, Identity = None \<rparr>) =
     Inr (RedirectToAuthorization,
          ScopeOf \<lparr> AccessDenied = False, Identity = Some user_session \<rparr>)"
proof -
  have v: "verifyToken cfg_default client_expired (user_token user_session) = Some ErrAccessTokenExpired"
    by (simp add: verifyToken_def client_expired_def)
  have c: "\<not> SkipTokenVerification cfg_default" "EnableRefreshTokens cfg_default"
    by (simp_all add: cfg_default_def)
  show ?thesis
    using authenticationMiddleware_refresh_failure [OF refl c(1) v c(2), of "\<lambda>u. Some ErrEncryption" ErrEncryption
        "\<lambda>u. False" "\<lparr> AccessDenied = False, Identity = None \<rparr>"]
      authenticationMiddleware_refresh_failure [OF refl c(1) v c(2), of "\<lambda>u. Some ErrRefreshTokenExpired"
        ErrRefreshTokenExpired "\<lambda>u. False" "\<lparr> AccessDenied = False, Identity = None \<rparr>"]
    by simp
qed

lemma hasAccess_iff:
  "hasAccess need held all groupCheck \<longleftrightarrow>
     (if all \<or> groupCheck then set need \<subseteq> set held
      else need = [] \<or> set need \<inter> set held \<noteq> {})"
  by (auto simp: hasAccess_def list_all_iff list_ex_iff)

lemma checkClaims_iff:
  "checkClaims user claimMatches \<longleftrightarrow>
     (\<forall>(claimName, match) \<in> set claimMatches. checkClaim user claimName match)"
  by (induction claimMatches) (auto split: if_splits)

text \<open>
  C4 (amended).  For a request with a request scope, \<open>admissionMiddleware\<close> permits
  exactly when no decision has been made before (\<open>AccessDenied\<close> is unset), the scope
  holds an identity, the role check and the group check pass, and every configured claim
  match passes: the role check passes iff, with \<open>RequireAnyRole\<close>, the required and the
  held roles intersect or none is required, and otherwise every required role is held;
  the group check passes iff every required group is held.  In particular the role check
  passes with \<open>RequireAnyRole\<close> and no required role.
\<close>

theorem admissionMiddleware_permits:
  "(admissionMiddleware resource claimMatches (ScopeOf scope) = Inr Permitted \<longleftrightarrow>
      \<not> AccessDenied scope \<and>
      (\<exists>user. Identity scope = Some user
         \<and> (if RequireAnyRole resource
             then Roles resource = [] \<or> set (Roles resource) \<inter> set (roles user) \<noteq> {}
             else set (Roles resource) \<subseteq> set (roles user))
         \<and> set (Groups resource) \<subseteq> set (groups user)
         \<and> (\<forall>(claimName, match) \<in> set claimMatches. checkClaim user claimName match)))
   \<and> (RequireAnyRole resource \<and> Roles resource = []
        \<longrightarrow> hasAccess (Roles resource) held (\<not> RequireAnyRole resource) False)"
  by (auto simp: admissionMiddleware_def hasAccess_iff checkClaims_iff split: option.splits)

theorem admissionMiddleware_permits_witness:
  "admissionMiddleware res_admin [(''iss'', \<lambda>v. v = ''idp'')]
     (ScopeOf \<lparr> AccessDenied = False, Identity = Some user_session \<rparr>) = Inr Permitted
   \<and> hasAccess (Roles res_open) [''user''] (\<not> RequireAnyRole res_open) False"
proof -
  have "checkClaim user_session ''iss'' (\<lambda>v. v = ''idp'')"
    by (simp add: checkClaim_def user_session_def StringClaim_def)
  then show ?thesis
    using admissionMiddleware_permits [of res_admin "[(''iss'', \<lambda>v. v = ''idp'')]"
        "\<lparr> AccessDenied = False, Identity = Some user_session \<rparr>" "[''user'']"]
      admissionMiddleware_permits [of res_open "[]"
        "\<lparr> AccessDenied = False, Identity = Some user_session \<rparr>" "[''user'']"]
    by (simp add: res_admin_def res_open_def user_session_def)
qed

theorem admissionMiddleware_claims_counterexample:
  "hasAccess (Roles res_open) (roles user_session) (\<not> RequireAnyRole res_open) False
   \<and> hasAccess (Groups res_open) (groups user_session) False True
   \<and> admissionMiddleware res_open [(''aud'', matches_admin)]
        (ScopeOf \<lparr> AccessDenied = False, Identity = Some user_session \<rparr>) = Inr Forbidden"
  by (simp add: admissionMiddleware_def hasAccess_def res_open_def user_session_def
      checkClaim_def)


text \<open>
  C8.  Let CSRF be enabled.  If the resource disables CSRF, the CSRF stage of the
  resource marks every request to skip the check.  Otherwise it first passes a request
  that has a nil scope, has been denied or has no identity on unmarked; it then marks a
  request whose identity is a bearer credential; and it passes the other requests, those
  with a cookie session, on unmarked.  A context that holds no request scope makes the
  stage panic; the entry point puts a scope into the context of every request.
\<close>

theorem csrfSkipResourceMiddleware_marks:
  assumes "EnableCSRF cfg"
  shows "(\<not> Resource_EnableCSRF resource \<longrightarrow>
            csrfSkipResourceMiddleware cfg resource ctx = Inr UnsafeSkipCheck)
       \<and> (Resource_EnableCSRF resource \<longrightarrow>
            csrfSkipResourceMiddleware cfg resource NoScope = Inl CorruptedContext
          \<and> csrfSkipResourceMiddleware cfg resource NilScope = Inr Unmarked
          \<and> csrfSkipResourceMiddleware cfg resource (ScopeOf scope) =
              Inr (if \<not> AccessDenied scope \<and> (\<exists>user. Identity scope = Some user \<and> isBearer user)
                   then UnsafeSkipCheck else Unmarked))"
  using assms by (auto simp: csrfSkipResourceMiddleware_def)

theorem csrfSkipResourceMiddleware_marks_witness:
  "csrfSkipResourceMiddleware cfg_default (res_open \<lparr> Resource_EnableCSRF := False \<rparr>) NoScope
     = Inr UnsafeSkipCheck
   \<and> csrfSkipResourceMiddleware cfg_default res_open
       (ScopeOf \<lparr> AccessDenied = False, Identity = Some user_bearer \<rparr>) = Inr UnsafeSkipCheck
   \<and> csrfSkipResourceMiddleware cfg_default res_open
       (ScopeOf \<lparr> AccessDenied = False, Identity = Some user_session \<rparr>) = Inr Unmarked
   \<and> csrfSkipResourceMiddleware cfg_default res_open
       (ScopeOf \<lparr> AccessDenied = False, Identity = None \<rparr>) = Inr Unmarked"
proof -
  have e: "EnableCSRF cfg_default" by (simp add: cfg_default_def)
  show ?thesis
    using csrfSkipResourceMiddleware_marks [OF e, of "res_open \<lparr> Resource_EnableCSRF := False \<rparr>" NoScope]
      csrfSkipResourceMiddleware_marks [OF e, of res_open _ "\<lparr> AccessDenied = False, Identity = Some user_bearer \<rparr>"]
      csrfSkipResourceMiddleware_marks [OF e, of res_open _ "\<lparr> AccessDenied = False, Identity = Some user_session \<rparr>"]
      csrfSkipResourceMiddleware_marks [OF e, of res_open _ "\<lparr> AccessDenied = False, Identity = None \<rparr>"]
    by (simp add: res_open_def isBearer_def user_bearer_def user_session_def)
qed

text \<open>
  The check for a denied request comes first: a denied request passes unmarked also when
  its identity is a bearer credential.
\<close>

lemma csrfSkipResourceMiddleware_denied_bearer:
  "isBearer user_bearer
   \<and> csrfSkipResourceMiddleware cfg_default res_open
       (ScopeOf \<lparr> AccessDenied = True, Identity = Some user_bearer \<rparr>) = Inr Unmarked"
  by (simp add: csrfSkipResourceMiddleware_def cfg_default_def res_open_def isBearer_def
      user_bearer_def user_session_def)

end
